theory Spec2Isabelle
  imports Complex_Main "HOL-Library.Char_ord" "HOL-Library.List_Lexorder"
begin

section \<open>Scoring engine (lib/scoring)\<close>

text \<open>
  A JavaScript \<open>number\<close> is modelled as a real: the arithmetic is exact, and the one
  way these functions can leave the finite numbers (a quotient with divisor zero) is
  written out where the source does not guard against it.  \<open>Math.round\<close> rounds to the
  nearest integer with ties towards plus infinity, which is \<open>floor (x + 1/2)\<close>.
\<close>

definition Math_round :: "real \<Rightarrow> real" where
  "Math_round x = of_int \<lfloor>x + 1 / 2\<rfloor>"






definition calculatePriceScore :: "real \<Rightarrow> real \<Rightarrow> real" where
  "calculatePriceScore unitPrice townMedian =
     (if townMedian \<le> 0 then 50
      else let ratio = unitPrice / townMedian in
        if ratio \<le> 0.70 then 100
        else if ratio \<ge> 1.50 then 0
        else Math_round (100 - ((ratio - 0.70) * 125)))"








section \<open>Database helpers (lib/db)\<close>

text \<open>
  \<open>extractLeaseYears\<close> returns the first match of \<open>/(\d+)\s*years?/i\<close>: a run of digits,
  optional white space, then \<open>year\<close> in either case.  A match that starts inside a run of
  digits exists only when one starts at the head of the run, so the leftmost match is found
  by trying every position with the whole run of digits.  \<open>null\<close> is \<open>None\<close>.  A string
  is a list of bytes here, so of the white space of \<open>\s\<close> only the ASCII part is covered.
\<close>

definition is_digit :: "char \<Rightarrow> bool" where
  "is_digit c = (c \<in> set ''0123456789'')"

definition is_space :: "char \<Rightarrow> bool" where
  "is_space c = (c \<in> {CHR '' '', CHR 0x09, CHR 0x0A, CHR 0x0B, CHR 0x0C, CHR 0x0D})"

definition lower_char :: "char \<Rightarrow> char" where
  "lower_char c =
     (if CHR ''A'' \<le> c \<and> c \<le> CHR ''Z'' then char_of (of_char c + (32::nat)) else c)"

definition digit_value :: "char \<Rightarrow> nat" where
  "digit_value c = of_char c - of_char CHR ''0''"

definition decimal_value :: "string \<Rightarrow> nat" where
  "decimal_value ds = foldl (\<lambda>n c. 10 * n + digit_value c) 0 ds"

definition match_years_here :: "string \<Rightarrow> string option" where
  "match_years_here s =
     (let digits = takeWhile is_digit s;
          rest = dropWhile is_space (dropWhile is_digit s)
      in if digits \<noteq> [] \<and> map lower_char (take 4 rest) = ''year''
         then Some digits else None)"

fun match_years :: "string \<Rightarrow> string option" where
  "match_years [] = None"
| "match_years (c # cs) =
     (case match_years_here (c # cs) of
        Some digits \<Rightarrow> Some digits
      | None \<Rightarrow> match_years cs)"

definition extractLeaseYears :: "string option \<Rightarrow> int option" where
  "extractLeaseYears leaseString =
     (case leaseString of
        None \<Rightarrow> None
      | Some s \<Rightarrow>
          if s = [] then None
          else map_option (\<lambda>digits. int (decimal_value digits)) (match_years s))"

text \<open>
  \<open>calculatePricePerSqm\<close> on values that may be \<open>NaN\<close> (\<open>None\<close>).  With an area of zero
  the quotient is infinite or \<open>NaN\<close>; the model has \<open>None\<close> for every result that is not a
  finite number.
\<close>

definition calculatePricePerSqm :: "real option \<Rightarrow> real option \<Rightarrow> real option" where
  "calculatePricePerSqm price' area =
     (case (price', area) of
        (Some p, Some a) \<Rightarrow>
          if a = 0 then None else Some (Math_round ((p / a) * 100) / 100)
      | _ \<Rightarrow> None)"

section \<open>Sync endpoint (pages/api/cron)\<close>

subsection \<open>Data\<close>

text \<open>
  The upstream record: every member is a string, as the interface \<open>HDBRecord\<close> declares,
  so no column of the natural key is bound to \<open>NULL\<close>.  \<open>resale_price\<close> carries a suffix
  here because \<open>UnitData\<close> has a member of that name.
\<close>

record HDBRecord =
  month :: string
  town :: string
  flat_type :: string
  block :: string
  street_name :: string
  storey_range :: string
  floor_area_sqm :: string
  flat_model :: string
  lease_commence_date :: string
  remaining_lease :: string
  resale_price_str :: string

text \<open>
  A row of \<open>hdb_transactions\<close>, with the fourteen columns the insert statement binds.
  \<open>resale_price\<close> is \<open>NOT NULL\<close>; a nullable column is an option (\<open>None\<close> for \<open>NULL\<close>, which
  is also what a value that is not a finite number is taken to be stored as).
\<close>

record hdb_transaction =
  col_transaction_date :: string
  col_month :: string
  col_town :: string
  col_flat_type :: string
  col_block :: string
  col_street_name :: string
  col_storey_range :: string
  col_floor_area_sqm :: "real option"
  col_flat_model :: string
  col_lease_commence_date :: "int option"
  col_remaining_lease :: string
  col_remaining_lease_years :: "int option"
  col_resale_price :: int
  col_price_per_sqm :: "real option"

text \<open>\<open>UNIQUE(month, town, flat_type, block, street_name, storey_range, resale_price)\<close>\<close>

definition natural_key ::
  "hdb_transaction \<Rightarrow> string \<times> string \<times> string \<times> string \<times> string \<times> string \<times> int" where
  "natural_key t =
     (col_month t, col_town t, col_flat_type t, col_block t, col_street_name t,
      col_storey_range t, col_resale_price t)"

record price_statistics_row =
  median_price :: int
  avg_price :: int
  min_price :: int
  max_price :: int
  transaction_count :: nat
  avg_price_per_sqm :: "real option"
  price_change_pct :: "real option"

datatype sync_error =
    FetchRejected string
  | HttpStatus nat string
  | BadBody

record sync_metadata_row =
  last_sync_at :: "string option"
  records_processed :: int
  status :: string
  error_message :: "sync_error option"

text \<open>
  The tables the endpoint writes: \<open>price_statistics\<close> is keyed by its unique
  \<open>(town, flat_type, month)\<close>, \<open>sync_metadata\<close> by its unique \<open>sync_type\<close>.
\<close>

record database =
  hdb_transactions :: "hdb_transaction list"
  price_statistics :: "string \<times> string \<times> string \<rightharpoonup> price_statistics_row"
  sync_metadata :: "string \<rightharpoonup> sync_metadata_row"

record payload =
  success :: bool
  records :: "HDBRecord list"

text \<open>
  What \<open>fetch\<close> gives for one page: the promise rejects, or a response arrives with its
  status, status text and JSON body (\<open>None\<close> when \<open>response.json()\<close> throws).
\<close>

datatype fetch_outcome =
    Rejected string
  | Response nat string "payload option"

text \<open>
  Everything one invocation takes from outside the program: the clock (the ISO time stamp
  of the start, the calendar date \<open>(year, month, day)\<close> at which \<open>sixMonthsAgo\<close> is created,
  and SQLite's \<open>date('now', '-6 months')\<close>), the upstream API as a function of the offset
  requested, and the built-ins \<open>parseInt\<close> and \<open>parseFloat\<close> (\<open>None\<close> is \<open>NaN\<close>).  The
  database is taken to answer every statement.
\<close>

type_synonym calendar_date = "nat \<times> nat \<times> nat"

record invocation =
  now_iso :: string
  today :: calendar_date
  stats_cutoff :: string
  fetch :: "nat \<Rightarrow> fetch_outcome"
  parseInt :: "string \<Rightarrow> int option"
  parseFloat :: "string \<Rightarrow> real option"

record request =
  cf_cron :: "string option"
  secret :: "string option"

datatype response_body =
    Unauthorized
  | DatabaseNotConfigured
  | SyncSucceeded nat nat
  | SyncFailed sync_error

record http_response =
  http_status :: nat
  body :: response_body

subsection \<open>Watermark\<close>

text \<open>
  \<open>sixMonthsAgo.setMonth(sixMonthsAgo.getMonth() - 6)\<close> on a date \<open>(year, month, day)\<close> with
  months counted from 1: the month goes back by six, into the year before when needed, and
  a day that the new month does not have runs over into the month after it.  The local
  time zone is taken to be UTC, as \<open>toISOString\<close> prints UTC.
\<close>

definition leap_year :: "nat \<Rightarrow> bool" where
  "leap_year y = ((y mod 4 = 0 \<and> y mod 100 \<noteq> 0) \<or> y mod 400 = 0)"

definition days_in_month :: "nat \<Rightarrow> nat \<Rightarrow> nat" where
  "days_in_month y m =
     (if m = 2 then (if leap_year y then 29 else 28)
      else if m = 4 \<or> m = 6 \<or> m = 9 \<or> m = 11 then 30 else 31)"

definition setMonth_back_6 :: "calendar_date \<Rightarrow> calendar_date" where
  "setMonth_back_6 date =
     (case date of
        (y, m, d) \<Rightarrow>
          let (y1, m1) = (if m > 6 then (y, m - 6) else (y - 1, m + 6))
          in if d \<le> days_in_month y1 m1 then (y1, m1, d)
             else if m1 = 12 then (y1 + 1, 1, d - days_in_month y1 m1)
             else (y1, m1 + 1, d - days_in_month y1 m1))"

text \<open>
  \<open>toISOString().substring(0, 7)\<close>: the year in four digits (for the years 0 to 9999), a
  hyphen, the month in two digits.
\<close>

definition digit_char :: "nat \<Rightarrow> char" where
  "digit_char n = ''0123456789'' ! (n mod 10)"

definition toISOString_month :: "calendar_date \<Rightarrow> string" where
  "toISOString_month date =
     (case date of
        (y, m, d) \<Rightarrow>
          [digit_char (y div 1000), digit_char (y div 100), digit_char (y div 10),
           digit_char y, CHR ''-'', digit_char (m div 10), digit_char m])"

definition six_months_ago :: "invocation \<Rightarrow> string" where
  "six_months_ago env = toISOString_month (setMonth_back_6 (today env))"

text \<open>\<open>SELECT MAX(month) FROM hdb_transactions\<close>: \<open>NULL\<close> on an empty table.\<close>

definition max_month :: "hdb_transaction list \<Rightarrow> string option" where
  "max_month table =
     (case table of
        [] \<Rightarrow> None
      | t # ts \<Rightarrow> Some (foldl max (col_month t) (map col_month ts)))"

text \<open>
  \<open>filterDate\<close> starts as the month six months back and is replaced by \<open>lastDbMonth\<close> when
  that is truthy (neither \<open>null\<close> nor the empty string) and later.
\<close>

definition filterDate :: "string \<Rightarrow> string option \<Rightarrow> string" where
  "filterDate sixMonthsAgo lastDbMonth =
     (case lastDbMonth of
        None \<Rightarrow> sixMonthsAgo
      | Some m \<Rightarrow> if m \<noteq> [] \<and> m > sixMonthsAgo then m else sixMonthsAgo)"

subsection \<open>Page-fetch loop\<close>

definition limit :: nat where
  "limit = 1000"

definition maxPages :: nat where
  "maxPages = 50"

datatype page_result =
    Continue nat "HDBRecord list"
  | Break "HDBRecord list"
  | Throw sync_error

text \<open>
  One pass through the body of the \<open>while\<close> loop, from the response to the request at
  \<open>offset\<close>: the new \<open>offset\<close> and \<open>allRecords\<close> when the loop goes on, \<open>allRecords\<close> at a
  \<open>break\<close>, the error at a \<open>throw\<close>.
\<close>

definition page_body :: "string \<Rightarrow> nat \<Rightarrow> HDBRecord list \<Rightarrow> fetch_outcome \<Rightarrow> page_result" where
  "page_body filter_date offset allRecords outcome =
     (case outcome of
        Rejected e \<Rightarrow> Throw (FetchRejected e)
      | Response st statusText json \<Rightarrow>
          if \<not> (200 \<le> st \<and> st \<le> 299) then
            (if st = 429 then Break allRecords else Throw (HttpStatus st statusText))
          else
            (case json of
               None \<Rightarrow> Throw BadBody
             | Some data \<Rightarrow>
                 if success data \<and> length (records data) > 0 then
                   (let newestInBatch = month (hd (records data));
                        filtered = filter (\<lambda>r. month r \<ge> filter_date) (records data);
                        allRecords =
                          (if length filtered > 0 then allRecords @ filtered else allRecords)
                    in if newestInBatch < filter_date then Break allRecords
                       else if length (records data) < limit then Break allRecords
                       else
                         (let offset = offset + limit
                          in if length allRecords = 0 \<and> offset > 5000 then Break allRecords
                             else if real offset / real limit \<ge> real maxPages
                               then Break allRecords
                             else Continue offset allRecords))
                 else Break allRecords))"

text \<open>
  The loop, from \<open>offset\<close> and \<open>allRecords\<close>.  The result carries, besides the error thrown
  or the records collected, the number of requests sent; \<open>requests\<close> counts them.
\<close>

function fetchLoop ::
  "(nat \<Rightarrow> fetch_outcome) \<Rightarrow> string \<Rightarrow> nat \<Rightarrow> HDBRecord list \<Rightarrow> nat
     \<Rightarrow> nat \<times> (sync_error + HDBRecord list)" where
  "fetchLoop fetch_page filter_date offset allRecords requests =
     (if offset < 200000 then
        (case page_body filter_date offset allRecords (fetch_page offset) of
           Continue offset' allRecords' \<Rightarrow>
             fetchLoop fetch_page filter_date offset' allRecords' (Suc requests)
         | Break allRecords' \<Rightarrow> (Suc requests, Inr allRecords')
         | Throw e \<Rightarrow> (Suc requests, Inl e))
      else (requests, Inr allRecords))"
  by pat_completeness auto

termination
  by (relation "measure (\<lambda>(fetch_page, filter_date, offset, allRecords, requests). 200000 - offset)")
    (auto simp: page_body_def Let_def limit_def
      split: fetch_outcome.splits option.splits if_splits)

subsection \<open>Batch insert\<close>

text \<open>
  The values one \<open>INSERT OR IGNORE\<close> statement binds for a record.  \<open>parseInt\<close> of the
  price may be \<open>NaN\<close>, which the model takes to be bound as \<open>NULL\<close>; \<open>resale_price\<close> is
  \<open>NOT NULL\<close>, and under \<open>OR IGNORE\<close> a row that breaks a constraint is skipped, so such a
  statement has no row to insert (\<open>None\<close>).
\<close>

definition insert_values :: "invocation \<Rightarrow> HDBRecord \<Rightarrow> hdb_transaction option" where
  "insert_values env record =
     (let price' = parseInt env (resale_price_str record);
          area = parseFloat env (floor_area_sqm record);
          pricePerSqm = calculatePricePerSqm (map_option real_of_int price') area;
          remainingYears = extractLeaseYears (Some (remaining_lease record))
      in case price' of
           None \<Rightarrow> None
         | Some p \<Rightarrow>
             Some \<lparr>col_transaction_date = month record @ ''-01'',
                   col_month = month record,
                   col_town = town record,
                   col_flat_type = flat_type record,
                   col_block = block record,
                   col_street_name = street_name record,
                   col_storey_range = storey_range record,
                   col_floor_area_sqm = area,
                   col_flat_model = flat_model record,
                   col_lease_commence_date = parseInt env (lease_commence_date record),
                   col_remaining_lease = remaining_lease record,
                   col_remaining_lease_years = remainingYears,
                   col_resale_price = p,
                   col_price_per_sqm = pricePerSqm\<rparr>)"

text \<open>
  One statement against the table: the row is added unless a stored row has the same
  natural key.  The first component is \<open>meta.changes\<close>.
\<close>

definition insert_or_ignore ::
  "hdb_transaction option \<Rightarrow> hdb_transaction list \<Rightarrow> nat \<times> hdb_transaction list" where
  "insert_or_ignore stmt table =
     (case stmt of
        None \<Rightarrow> (0, table)
      | Some t \<Rightarrow>
          if natural_key t \<in> natural_key ` set table then (0, table)
          else (1, table @ [t]))"

text \<open>\<open>DB.batch\<close> runs the statements in order and returns one result for each.\<close>

fun DB_batch ::
  "hdb_transaction option list \<Rightarrow> hdb_transaction list \<Rightarrow> nat list \<times> hdb_transaction list" where
  "DB_batch [] table = ([], table)"
| "DB_batch (stmt # stmts) table =
     (let (changes, table') = insert_or_ignore stmt table;
          (results, table'') = DB_batch stmts table'
      in (changes # results, table''))"

definition batchSize :: nat where
  "batchSize = 50"

function insertBatches ::
  "invocation \<Rightarrow> HDBRecord list \<Rightarrow> nat \<Rightarrow> nat \<Rightarrow> hdb_transaction list
     \<Rightarrow> nat \<times> hdb_transaction list" where
  "insertBatches env allRecords i insertedCount table =
     (if i < length allRecords then
        (let batch = take batchSize (drop i allRecords);
             statements = map (insert_values env) batch;
             (results, table') = DB_batch statements table;
             batchInserted = length (filter (\<lambda>changes. changes > 0) results)
         in insertBatches env allRecords (i + batchSize) (insertedCount + batchInserted) table')
      else (insertedCount, table))"
  by pat_completeness auto
termination
  by (relation "measure (\<lambda>(env, allRecords, i, insertedCount, table). length allRecords - i)")
    (auto simp: batchSize_def)

definition insertRecords ::
  "invocation \<Rightarrow> HDBRecord list \<Rightarrow> hdb_transaction list \<Rightarrow> nat \<times> hdb_transaction list" where
  "insertRecords env allRecords table =
     (if length allRecords > 0 then insertBatches env allRecords 0 0 table else (0, table))"

subsection \<open>Statistics\<close>

text \<open>
  SQLite's \<open>ROUND(X)\<close> and \<open>ROUND(X, 2)\<close> round half away from zero; \<open>AVG\<close> is the sum over
  the count of the values that are not \<open>NULL\<close>, and \<open>NULL\<close> when there is none.
\<close>

definition sql_round :: "real \<Rightarrow> int" where
  "sql_round x = (if x < 0 then - \<lfloor>- x + 1 / 2\<rfloor> else \<lfloor>x + 1 / 2\<rfloor>)"

definition sql_round2 :: "real \<Rightarrow> real" where
  "sql_round2 x = real_of_int (sql_round (x * 100)) / 100"

definition sql_avg :: "real list \<Rightarrow> real option" where
  "sql_avg xs = (if xs = [] then None else Some (sum_list xs / real (length xs)))"

fun non_null :: "'a option list \<Rightarrow> 'a list" where
  "non_null [] = []"
| "non_null (None # xs) = non_null xs"
| "non_null (Some x # xs) = x # non_null xs"

text \<open>
  The rows of one group of \<open>GROUP BY town, flat_type, month\<close> under
  \<open>WHERE month >= date('now', '-6 months')\<close>.
\<close>

definition group_rows ::
  "string \<Rightarrow> hdb_transaction list \<Rightarrow> string \<times> string \<times> string \<Rightarrow> hdb_transaction list" where
  "group_rows cutoff table k =
     filter (\<lambda>t. col_month t \<ge> cutoff \<and> (col_town t, col_flat_type t, col_month t) = k) table"

text \<open>
  The row selected for a group that is not empty: \<open>median_price\<close> and \<open>avg_price\<close> are both
  \<open>ROUND(AVG(resale_price))\<close>.  \<open>price_change_pct\<close> is not among the columns inserted.
\<close>

definition aggregate :: "hdb_transaction \<Rightarrow> hdb_transaction list \<Rightarrow> price_statistics_row" where
  "aggregate t ts =
     (let prices = map col_resale_price (t # ts);
          avg = real_of_int (sum_list prices) / real (length prices)
      in \<lparr>median_price = sql_round avg,
          avg_price = sql_round avg,
          min_price = fold min (map col_resale_price ts) (col_resale_price t),
          max_price = fold max (map col_resale_price ts) (col_resale_price t),
          transaction_count = length prices,
          avg_price_per_sqm =
            map_option sql_round2 (sql_avg (non_null (map col_price_per_sqm (t # ts)))),
          price_change_pct = None\<rparr>)"

text \<open>\<open>INSERT OR REPLACE\<close>: the row of every group selected replaces the stored one.\<close>

definition updateStatistics :: "string \<Rightarrow> database \<Rightarrow> database" where
  "updateStatistics cutoff DB =
     DB\<lparr>price_statistics :=
          (\<lambda>k. case group_rows cutoff (hdb_transactions DB) k of
                 [] \<Rightarrow> price_statistics DB k
               | t # ts \<Rightarrow> Some (aggregate t ts))\<rparr>"

subsection \<open>The handler\<close>

text \<open>\<open>UPDATE sync_metadata SET ... WHERE sync_type = 'hdb_data'\<close>\<close>

definition update_sync :: "(sync_metadata_row \<Rightarrow> sync_metadata_row) \<Rightarrow> database \<Rightarrow> database" where
  "update_sync f DB =
     (case sync_metadata DB ''hdb_data'' of
        None \<Rightarrow> DB
      | Some r \<Rightarrow> DB\<lparr>sync_metadata := (sync_metadata DB)(''hdb_data'' \<mapsto> f r)\<rparr>)"

text \<open>
  The \<open>try\<close> block: the error thrown or the counts \<open>(records_fetched, records_inserted)\<close>,
  with the database as the block leaves it.  \<open>populateUnitScores\<close> catches the failures of
  the enrichment provider itself and writes \<open>unit_scores\<close> and the coordinates of
  transactions, which are not among the columns above, so it leaves this state as it is.
\<close>

definition sync_try :: "invocation \<Rightarrow> database \<Rightarrow> (sync_error + nat \<times> nat) \<times> database" where
  "sync_try env DB0 =
     (let DB = update_sync (\<lambda>r. r\<lparr>status := ''running'', last_sync_at := Some (now_iso env)\<rparr>) DB0;
          lastDbMonth = max_month (hdb_transactions DB);
          filter_date = filterDate (six_months_ago env) lastDbMonth
      in case snd (fetchLoop (fetch env) filter_date 0 [] 0) of
           Inl e \<Rightarrow> (Inl e, DB)
         | Inr allRecords \<Rightarrow>
             (let (insertedCount, table) = insertRecords env allRecords (hdb_transactions DB);
                  DB = DB\<lparr>hdb_transactions := table\<rparr>;
                  DB = updateStatistics (stats_cutoff env) DB
              in (Inr (length allRecords, insertedCount),
                  update_sync
                    (\<lambda>r. r\<lparr>status := ''completed'',
                           records_processed := int insertedCount,
                           error_message := None\<rparr>)
                    DB)))"

text \<open>
  \<open>GET\<close>: the response and the database binding afterwards (\<open>None\<close> when
  \<open>runtime.env.DB\<close> is missing).
\<close>

definition GET ::
  "invocation \<Rightarrow> request \<Rightarrow> database option \<Rightarrow> http_response \<times> database option" where
  "GET env req runtime_DB =
     (let isCron = (cf_cron req = Some ''true'')
      in if \<not> isCron \<and> secret req \<noteq> Some ''manual-sync-trigger'' then
           (\<lparr>http_status = 401, body = Unauthorized\<rparr>, runtime_DB)
         else
           (case runtime_DB of
              None \<Rightarrow> (\<lparr>http_status = 500, body = DatabaseNotConfigured\<rparr>, None)
            | Some DB \<Rightarrow>
                (case sync_try env DB of
                   (Inr (fetched, inserted), DB') \<Rightarrow>
                     (\<lparr>http_status = 200, body = SyncSucceeded fetched inserted\<rparr>, Some DB')
                 | (Inl e, DB') \<Rightarrow>
                     (\<lparr>http_status = 500, body = SyncFailed e\<rparr>,
                      Some (update_sync
                              (\<lambda>r. r\<lparr>status := ''failed'', error_message := Some e\<rparr>) DB')))))"

subsection \<open>Median by rank selection\<close>

text \<open>
  The median the specification asks for: sort the prices of the group and take the middle
  value, or the average of the two central values when the count is even.
\<close>

definition rank_median :: "int list \<Rightarrow> real" where
  "rank_median prices =
     (let sorted_prices = sort prices; n = length sorted_prices
      in if odd n then real_of_int (sorted_prices ! (n div 2))
         else (real_of_int (sorted_prices ! (n div 2 - 1)) +
               real_of_int (sorted_prices ! (n div 2))) / 2)"

subsection \<open>Stop conditions of the page-fetch loop\<close>

text \<open>
  The page a response carries, when it has one: the records of a response with a success
  status and a readable body.
\<close>

definition page_of :: "fetch_outcome \<Rightarrow> HDBRecord list option" where
  "page_of outcome =
     (case outcome of
        Rejected e \<Rightarrow> None
      | Response st statusText json \<Rightarrow>
          if 200 \<le> st \<and> st \<le> 299 then map_option records json else None)"

definition rate_limited :: "fetch_outcome \<Rightarrow> bool" where
  "rate_limited outcome =
     (case outcome of Rejected e \<Rightarrow> False | Response st statusText json \<Rightarrow> st = 429)"

text \<open>
  The four conditions of the specification, at the request for \<open>offset\<close>: the page holds
  fewer records than the page size, its newest record is older than the watermark, the
  page cap is reached with this page, or the response is a 429.
\<close>

definition specified_stop :: "string \<Rightarrow> nat \<Rightarrow> fetch_outcome \<Rightarrow> bool" where
  "specified_stop filter_date offset outcome =
     ((case page_of outcome of
         None \<Rightarrow> False
       | Some page \<Rightarrow> length page < limit \<or> (page \<noteq> [] \<and> month (hd page) < filter_date)) \<or>
      maxPages * limit \<le> offset + limit \<or>
      rate_limited outcome)"

text \<open>
  The two further ways the loop body ends the loop: the request fails (the promise rejects,
  the status is an error other than 429, or the body cannot be read), which throws; or the
  body reports \<open>success: false\<close>, which breaks.
\<close>

definition request_failed :: "fetch_outcome \<Rightarrow> bool" where
  "request_failed outcome =
     (case outcome of
        Rejected e \<Rightarrow> True
      | Response st statusText json \<Rightarrow>
          if 200 \<le> st \<and> st \<le> 299 then json = None else st \<noteq> 429)"

definition unsuccessful :: "fetch_outcome \<Rightarrow> bool" where
  "unsuccessful outcome =
     (case outcome of
        Rejected e \<Rightarrow> False
      | Response st statusText json \<Rightarrow>
          200 \<le> st \<and> st \<le> 299 \<and> (case json of None \<Rightarrow> False | Some data \<Rightarrow> \<not> success data))"

text \<open>
  A pass ends the loop when one of the four conditions of the specification holds, the
  request fails, or the body reports \<open>success: false\<close>.
\<close>

definition pass_stops :: "string \<Rightarrow> nat \<Rightarrow> fetch_outcome \<Rightarrow> bool" where
  "pass_stops filter_date offset outcome =
     (specified_stop filter_date offset outcome \<or> request_failed outcome \<or>
      unsuccessful outcome)"

text \<open>The error a failed request throws.\<close>

definition thrown_error :: "fetch_outcome \<Rightarrow> sync_error" where
  "thrown_error outcome =
     (case outcome of
        Rejected e \<Rightarrow> FetchRejected e
      | Response st statusText json \<Rightarrow>
          if 200 \<le> st \<and> st \<le> 299 then BadBody else HttpStatus st statusText)"

text \<open>
  The records a pass adds to \<open>allRecords\<close>: those of a successful body that are not older
  than the watermark.
\<close>

definition page_records :: "string \<Rightarrow> fetch_outcome \<Rightarrow> HDBRecord list" where
  "page_records filter_date outcome =
     (case outcome of
        Rejected e \<Rightarrow> []
      | Response st statusText json \<Rightarrow>
          if 200 \<le> st \<and> st \<le> 299 then
            (case json of
               None \<Rightarrow> []
             | Some data \<Rightarrow>
                 if success data then filter (\<lambda>r. month r \<ge> filter_date) (records data)
                 else [])
          else [])"

text \<open>
  The state \<open>(offset, allRecords)\<close> of the loop after \<open>k\<close> passes that all went on to the
  next page; \<open>None\<close> when the loop ended within them.
\<close>

fun pages_continued ::
  "(nat \<Rightarrow> fetch_outcome) \<Rightarrow> string \<Rightarrow> nat \<Rightarrow> nat \<times> HDBRecord list
     \<Rightarrow> (nat \<times> HDBRecord list) option" where
  "pages_continued fetch_page filter_date 0 state = Some state"
| "pages_continued fetch_page filter_date (Suc k) (offset, allRecords) =
     (if offset < 200000 then
        (case page_body filter_date offset allRecords (fetch_page offset) of
           Continue offset' allRecords' \<Rightarrow>
             pages_continued fetch_page filter_date k (offset', allRecords')
         | Break allRecords' \<Rightarrow> None
         | Throw e \<Rightarrow> None)
      else None)"

subsection \<open>Sample data\<close>

text \<open>A stored row and an upstream record with a given month and price, for evaluation.\<close>

definition sample_row :: "string \<Rightarrow> int \<Rightarrow> hdb_transaction" where
  "sample_row m p =
     \<lparr>col_transaction_date = m @ ''-01'', col_month = m, col_town = ''BEDOK'',
      col_flat_type = ''4 ROOM'', col_block = ''101'', col_street_name = ''BEDOK NTH AVE 4'',
      col_storey_range = ''04 TO 06'', col_floor_area_sqm = Some 92,
      col_flat_model = ''New Generation'', col_lease_commence_date = Some 1979,
      col_remaining_lease = ''52 years 03 months'', col_remaining_lease_years = Some 52,
      col_resale_price = p, col_price_per_sqm = None\<rparr>"

definition sample_record :: "string \<Rightarrow> string \<Rightarrow> HDBRecord" where
  "sample_record m p =
     \<lparr>month = m, town = ''BEDOK'', flat_type = ''4 ROOM'', block = ''101'',
      street_name = ''BEDOK NTH AVE 4'', storey_range = ''04 TO 06'',
      floor_area_sqm = ''92'', flat_model = ''New Generation'',
      lease_commence_date = ''1979'', remaining_lease = ''52 years 03 months'',
      resale_price_str = p\<rparr>"

text \<open>
  Stand-ins for the built-ins on the sample data: a string of decimal digits is read as
  its value, every other string as \<open>NaN\<close>.
\<close>

definition sample_parseInt :: "string \<Rightarrow> int option" where
  "sample_parseInt s =
     (if s \<noteq> [] \<and> list_all is_digit s then Some (int (decimal_value s)) else None)"

text \<open>
  An invocation in which the upstream API serves two full pages of records of October 2026
  and answers the third request with a 429.
\<close>

definition sample_env :: invocation where
  "sample_env =
     \<lparr>now_iso = ''2026-11-02T18:00:00.000Z'',
      today = (2026, 11, 2),
      stats_cutoff = ''2026-05-02'',
      fetch = (\<lambda>offset.
        if offset = 0 then
          Response 200 ''OK''
            (Some \<lparr>success = True,
                   records = replicate 1000 (sample_record ''2026-10'' ''450000'')\<rparr>)
        else if offset = 1000 then
          Response 200 ''OK''
            (Some \<lparr>success = True,
                   records = replicate 1000 (sample_record ''2026-10'' ''300000'')\<rparr>)
        else Response 429 ''Too Many Requests'' None),
      parseInt = sample_parseInt,
      parseFloat = (\<lambda>s. map_option real_of_int (sample_parseInt s))\<rparr>"

definition sample_database :: database where
  "sample_database =
     \<lparr>hdb_transactions = [],
      price_statistics = Map.empty,
      sync_metadata =
        [''hdb_data'' \<mapsto>
           \<lparr>last_sync_at = None, records_processed = 0, status = ''pending'',
            error_message = None\<rparr>]\<rparr>"

section \<open>OneMap client (lib/onemap): amenity counts\<close>

text \<open>
  What the themes service sends back, as far as \<open>getNearbyAmenities\<close> reads it.  Of the JSON
  body only the member \<open>SrchResults\<close> is read: it is missing or falsy, an array with some
  number of elements, or a truthy value that is not an array (given with the number its
  \<open>.length - 1\<close> evaluates to, \<open>None\<close> for \<open>NaN\<close>).  The body itself is \<open>None\<close> when reading
  it throws.
\<close>

datatype srch_results = Missing | Entries nat | NotArray "real option"

datatype theme_reply =
    FetchThrows
  | Reply nat "srch_results option"

text \<open>The request: the theme queried, the four bounds of the extents, the token.\<close>

type_synonym theme_service = "string \<Rightarrow> real \<times> real \<times> real \<times> real \<Rightarrow> string \<Rightarrow> theme_reply"

definition themeMapping :: "string \<rightharpoonup> string" where
  "themeMapping =
     [''hawkercentre'' \<mapsto> ''ssot_hawkercentres'',
      ''national_parks'' \<mapsto> ''nationalparks'',
      ''preschools'' \<mapsto> ''childcare'']"

definition extents_of :: "real \<Rightarrow> real \<Rightarrow> real \<times> real \<times> real \<times> real" where
  "extents_of latitude longitude =
     (let latOffset = 0.0045; lonOffset = 0.0045
      in (longitude - lonOffset, latitude - latOffset,
          longitude + lonOffset, latitude + latOffset))"

text \<open>
  The client the endpoints import (its theme type has the names they pass): every failure
  returns 0, and a count is returned only for an array of more than one element.
\<close>

definition getNearbyAmenities :: "theme_service \<Rightarrow> real \<Rightarrow> real \<Rightarrow> string \<Rightarrow> string \<Rightarrow> int" where
  "getNearbyAmenities service latitude longitude theme token =
     (let actualTheme = (case themeMapping theme of Some t \<Rightarrow> t | None \<Rightarrow> theme)
      in case service actualTheme (extents_of latitude longitude) token of
           FetchThrows \<Rightarrow> 0
         | Reply st data \<Rightarrow>
             if \<not> (200 \<le> st \<and> st \<le> 299) then (if st = 404 then 0 else 0)
             else
               (case data of
                  None \<Rightarrow> 0
                | Some Missing \<Rightarrow> 0
                | Some (NotArray v) \<Rightarrow> 0
                | Some (Entries n) \<Rightarrow> if n > 1 then int n - 1 else 0))"

text \<open>
  The second copy of the client in the repository, with the theme type
  \<open>'preschools' | 'hawkercentre' | 'parks' | 'communityclubs'\<close>: it returns
  \<open>data.SrchResults ? data.SrchResults.length - 1 : 0\<close>.  The result is a JavaScript number,
  \<open>None\<close> for \<open>NaN\<close>.
\<close>

definition getNearbyAmenities_second ::
  "theme_service \<Rightarrow> real \<Rightarrow> real \<Rightarrow> string \<Rightarrow> string \<Rightarrow> real option" where
  "getNearbyAmenities_second service latitude longitude theme token =
     (case service theme (extents_of latitude longitude) token of
        FetchThrows \<Rightarrow> Some 0
      | Reply st data \<Rightarrow>
          if \<not> (200 \<le> st \<and> st \<le> 299) then Some 0
          else
            (case data of
               None \<Rightarrow> Some 0
             | Some Missing \<Rightarrow> Some 0
             | Some (NotArray v) \<Rightarrow> v
             | Some (Entries n) \<Rightarrow> Some (real n - 1)))"

section \<open>Comparison endpoint (pages/api/comparison): median of a month\<close>

text \<open>
  The price at \<open>OFFSET Math.floor(count / 2)\<close> of the prices in ascending order, and
  \<open>avg_price\<close> when there is no such row or the price is falsy.
\<close>

definition comparison_median_price :: "int list \<Rightarrow> real \<Rightarrow> real" where
  "comparison_median_price prices avg =
     (let offset = length prices div 2; ordered = sort prices
      in if offset < length ordered \<and> ordered ! offset \<noteq> 0
         then real_of_int (ordered ! offset) else avg)"

section \<open>Properties of the scoring engine\<close>
























text \<open>
  Claim C10.  When the town median is zero or negative, \<open>calculatePriceScore\<close> returns the
  neutral score 50 for every unit price: the guard returns before the ratio
  \<open>unitPrice / townMedian\<close> is formed, so the quotient is only taken with a positive divisor.
\<close>

theorem calculatePriceScore_median_unavailable:
  "townMedian \<le> 0 \<Longrightarrow> calculatePriceScore unitPrice townMedian = 50"
  by (simp add: calculatePriceScore_def)

theorem calculatePriceScore_median_unavailable_witness:
  "(0::real) \<le> 0 \<and> calculatePriceScore 500000 0 = 50 \<and>
   (- 1::real) \<le> 0 \<and> calculatePriceScore 500000 (- 1) = 50"
  using calculatePriceScore_median_unavailable[of 0 500000]
    calculatePriceScore_median_unavailable[of "- 1" 500000]
  by simp


section \<open>Properties of the sync endpoint\<close>

subsection \<open>Authorisation\<close>

text \<open>
  Claim C6.  A request that carries neither the header \<open>cf-cron: true\<close> nor the secret
  \<open>manual-sync-trigger\<close> is answered with status 401, whatever the invocation and the
  database are, and the database binding is returned as it was: the handler returns before
  it looks at the database, so nothing is read or written and the sync state is unchanged.
\<close>

theorem GET_unauthorized:
  assumes "cf_cron req \<noteq> Some ''true''" and "secret req \<noteq> Some ''manual-sync-trigger''"
  shows "GET env req runtime_DB = (\<lparr>http_status = 401, body = Unauthorized\<rparr>, runtime_DB)"
  using assms by (simp add: GET_def)

theorem GET_unauthorized_witness:
  "\<forall>env runtime_DB.
     GET env \<lparr>cf_cron = None, secret = Some ''guess''\<rparr> runtime_DB =
       (\<lparr>http_status = 401, body = Unauthorized\<rparr>, runtime_DB) \<and>
     GET env \<lparr>cf_cron = Some ''false'', secret = None\<rparr> runtime_DB =
       (\<lparr>http_status = 401, body = Unauthorized\<rparr>, runtime_DB)"
proof (intro allI conjI)
  fix env runtime_DB
  show "GET env \<lparr>cf_cron = None, secret = Some ''guess''\<rparr> runtime_DB =
       (\<lparr>http_status = 401, body = Unauthorized\<rparr>, runtime_DB)"
    by (rule GET_unauthorized) simp_all
  show "GET env \<lparr>cf_cron = Some ''false'', secret = None\<rparr> runtime_DB =
       (\<lparr>http_status = 401, body = Unauthorized\<rparr>, runtime_DB)"
    by (rule GET_unauthorized) simp_all
qed

subsection \<open>Watermark\<close>

lemma sample_six_months_ago: "six_months_ago sample_env = ''2026-05''"
  by (simp add: six_months_ago_def sample_env_def setMonth_back_6_def days_in_month_def
      toISOString_month_def digit_char_def)

lemma foldl_max_Max: "foldl max (x::'a::linorder) xs = Max (set (x # xs))"
proof -
  have "foldl max x xs = fold max xs x"
    by (simp add: foldl_conv_fold max.commute)
  also have "\<dots> = Max (set (x # xs))"
    by (rule Max.set_eq_fold[symmetric])
  finally show ?thesis .
qed

lemma max_month_Max:
  "table \<noteq> [] \<Longrightarrow> max_month table = Some (Max (col_month ` set table))"
proof (cases table)
  case Nil
  assume "table \<noteq> []"
  with Nil show ?thesis by simp
next
  case (Cons t ts)
  have "set (col_month t # map col_month ts) = col_month ` set (t # ts)" by simp
  then show ?thesis
    unfolding Cons max_month_def by (simp only: list.case foldl_max_Max)
qed

lemma max_month_Nil: "max_month [] = None"
  by (simp add: max_month_def)

lemma filterDate_later:
  "filterDate sixMonthsAgo (max_month table) =
     (if table \<noteq> [] \<and> sixMonthsAgo < Max (col_month ` set table)
      then Max (col_month ` set table) else sixMonthsAgo)"
proof (cases "table = []")
  case True
  then show ?thesis by (simp add: filterDate_def max_month_Nil)
next
  case False
  have "\<not> sixMonthsAgo < []" by simp
  then show ?thesis
    using False by (auto simp: filterDate_def max_month_Max)
qed

subsection \<open>Statistics\<close>

lemma aggregate_median_price:
  "median_price (aggregate t ts) =
     sql_round (real_of_int (sum_list (map col_resale_price (t # ts))) / real (length (t # ts)))"
  by (simp add: aggregate_def Let_def)

lemma updateStatistics_group:
  "group_rows cutoff (hdb_transactions DB) k = t # ts \<Longrightarrow>
   price_statistics (updateStatistics cutoff DB) k = Some (aggregate t ts)"
  by (simp add: updateStatistics_def)

text \<open>
  Claim C1 asks for the median by rank selection.  \<open>updateStatistics\<close> stores the rounded
  mean in \<open>median_price\<close> (lemma \<open>aggregate_median_price\<close>): for a group with the prices
  100, 200 and 600 it stores 300, and the median by rank selection is 200.
\<close>

theorem updateStatistics_median_is_mean:
  "map_option median_price
     (price_statistics
        (updateStatistics ''2026-05-02''
           \<lparr>hdb_transactions =
              [sample_row ''2026-10'' 100, sample_row ''2026-10'' 200, sample_row ''2026-10'' 600],
            price_statistics = Map.empty, sync_metadata = Map.empty\<rparr>)
        (''BEDOK'', ''4 ROOM'', ''2026-10'')) = Some 300 \<and>
   rank_median [100, 200, 600] = 200"
  by (simp add: updateStatistics_def group_rows_def aggregate_def sample_row_def sql_round_def
      rank_median_def Let_def)

text \<open>
  On the two price lists of the specification the mean and the median coincide, so they
  do not tell the two apart; the comparison endpoint, which does select by rank, takes the
  upper of the two central values of an even count.
\<close>

lemma updateStatistics_median_examples:
  "sql_round (real_of_int (sum_list [100, 200, 300, 400]) / real (length [100, 200, 300, 400::int]))
     = 250"
  "sql_round (real_of_int (sum_list [100, 200, 300]) / real (length [100, 200, 300::int])) = 200"
  by (simp_all add: sql_round_def)

lemma comparison_median_price_even:
  "comparison_median_price [100, 200, 300, 400] 250 = 300"
  by (simp add: comparison_median_price_def Let_def)

lemma rank_median_examples:
  "rank_median [100, 200, 300, 400] = 250" "rank_median [100, 200, 300] = 200"
  by (simp_all add: rank_median_def Let_def)

subsection \<open>Page-fetch loop\<close>

lemma cap_iff:
  "(real (offset + limit) / real limit \<ge> real maxPages) = (maxPages * limit \<le> offset + limit)"
proof -
  have "(real maxPages \<le> real (offset + limit) / real limit) =
        (real maxPages * real limit \<le> real (offset + limit))"
    by (simp add: limit_def pos_le_divide_eq)
  also have "\<dots> = (maxPages * limit \<le> offset + limit)"
    by (simp only: of_nat_mult[symmetric] of_nat_le_iff)
  finally show ?thesis .
qed

lemma cap_iff_sum:
  "(real maxPages \<le> (real offset + real limit) / real limit) =
     (maxPages * limit \<le> offset + limit)"
  using cap_iff[of offset] by simp

lemma newest_kept:
  assumes "recs \<noteq> []" and "\<not> month (hd recs) < filter_date"
  shows "filter (\<lambda>r. month r \<ge> filter_date) recs \<noteq> []"
proof -
  have "hd recs \<in> set recs" using assms(1) by simp
  moreover have "month (hd recs) \<ge> filter_date" using assms(2) by simp
  ultimately show ?thesis by (auto simp: filter_empty_conv)
qed

lemma page_body_success:
  assumes "200 \<le> st" "st \<le> 299" "success data" "records data \<noteq> []"
  shows "page_body filter_date offset allRecords (Response st statusText (Some data)) =
     (if month (hd (records data)) < filter_date \<or> length (records data) < limit \<or>
         maxPages * limit \<le> offset + limit
      then Break (allRecords @ filter (\<lambda>r. month r \<ge> filter_date) (records data))
      else Continue (offset + limit)
             (allRecords @ filter (\<lambda>r. month r \<ge> filter_date) (records data)))"
proof (cases "month (hd (records data)) < filter_date")
  case True
  then show ?thesis
    using assms by (simp add: page_body_def Let_def)
next
  case False
  from newest_kept[OF assms(4) False]
  have ne: "filter (\<lambda>r. month r \<ge> filter_date) (records data) \<noteq> []" .
  show ?thesis
    using assms False ne by (simp add: page_body_def Let_def cap_iff_sum)
qed

lemma page_body_Continue_iff:
  "(\<exists>offset' allRecords'. page_body filter_date offset allRecords outcome =
        Continue offset' allRecords') =
   (\<not> (specified_stop filter_date offset outcome \<or> request_failed outcome \<or>
        unsuccessful outcome))"
proof (cases outcome)
  case (Rejected e)
  then show ?thesis by (simp add: page_body_def request_failed_def)
next
  case (Response st statusText json)
  show ?thesis
  proof (cases "200 \<le> st \<and> st \<le> 299")
    case False
    then show ?thesis
      unfolding Response
      by (auto simp: page_body_def request_failed_def specified_stop_def rate_limited_def)
  next
    case ok: True
    show ?thesis
    proof (cases json)
      case None
      then show ?thesis
        unfolding Response using ok by (simp add: page_body_def request_failed_def)
    next
      case (Some data)
      show ?thesis
      proof (cases "success data \<and> records data \<noteq> []")
        case True
        then show ?thesis
          unfolding Response Some using ok
          by (auto simp: page_body_success specified_stop_def page_of_def rate_limited_def
              request_failed_def unsuccessful_def)
      next
        case False
        then show ?thesis
          unfolding Response Some using ok
          by (auto simp: page_body_def specified_stop_def page_of_def rate_limited_def
              request_failed_def unsuccessful_def limit_def)
      qed
    qed
  qed
qed

lemma page_body_Throw_iff:
  "(\<exists>e. page_body filter_date offset allRecords outcome = Throw e) = request_failed outcome"
  by (auto simp: page_body_def request_failed_def Let_def
      split: fetch_outcome.splits option.splits)

lemma page_body_Continue_offset:
  assumes "page_body filter_date offset allRecords outcome = Continue offset' allRecords'"
  shows "offset' = offset + limit \<and> offset' < maxPages * limit"
  using assms
  by (auto simp: page_body_def Let_def cap_iff_sum
      split: fetch_outcome.splits option.splits if_splits)

lemma fetchLoop_requests:
  "fst (fetchLoop fetch_page filter_date offset allRecords requests) \<le>
     requests + max 1 (maxPages - offset div limit)"
proof (induction fetch_page filter_date offset allRecords requests rule: fetchLoop.induct)
  case (1 fetch_page filter_date offset allRecords requests)
  show ?case
  proof (cases "offset < 200000")
    case False
    then show ?thesis by simp
  next
    case True
    show ?thesis
    proof (cases "page_body filter_date offset allRecords (fetch_page offset)")
      case (Continue offset' allRecords')
      from page_body_Continue_offset[OF Continue]
      have o: "offset' = offset + limit" "offset' < maxPages * limit" by simp_all
      have "fst (fetchLoop fetch_page filter_date offset' allRecords' (Suc requests)) \<le>
          Suc requests + max 1 (maxPages - offset' div limit)"
        using "1.IH"[OF True Continue] .
      moreover have "Suc (max 1 (maxPages - offset' div limit)) \<le>
          max 1 (maxPages - offset div limit)"
        using o by (simp add: limit_def maxPages_def)
      ultimately show ?thesis
        using True Continue by simp
    next
      case (Break allRecords')
      then show ?thesis using True by simp
    next
      case (Throw e)
      then show ?thesis using True by simp
    qed
  qed
qed

lemma fetchLoop_requests_ge:
  "offset < 200000 \<Longrightarrow>
   Suc requests \<le> fst (fetchLoop fetch_page filter_date offset allRecords requests)"
proof (induction fetch_page filter_date offset allRecords requests rule: fetchLoop.induct)
  case (1 fetch_page filter_date offset allRecords requests)
  show ?case
  proof (cases "page_body filter_date offset allRecords (fetch_page offset)")
    case (Continue offset' allRecords')
    from page_body_Continue_offset[OF Continue]
    have o: "offset' < 200000" by (simp add: limit_def maxPages_def)
    show ?thesis
      using "1.IH"[OF "1.prems" Continue o] "1.prems" Continue by simp
  next
    case (Break allRecords')
    then show ?thesis using "1.prems" by simp
  next
    case (Throw e)
    then show ?thesis using "1.prems" by simp
  qed
qed

lemma page_body_rate_limited:
  "rate_limited outcome \<Longrightarrow> page_body filter_date offset allRecords outcome = Break allRecords"
  by (auto simp: rate_limited_def page_body_def split: fetch_outcome.splits)

lemma page_body_Continue_records:
  assumes "page_body filter_date offset allRecords outcome = Continue offset' allRecords'"
  shows "allRecords' = allRecords @ page_records filter_date outcome"
  using assms
  by (auto simp: page_body_def page_records_def Let_def
      split: fetch_outcome.splits option.splits if_splits)

lemma page_body_Break_records:
  assumes "page_body filter_date offset allRecords outcome = Break allRecords'"
  shows "allRecords' = allRecords @ page_records filter_date outcome"
  using assms
  by (auto simp: page_body_def page_records_def Let_def
      split: fetch_outcome.splits option.splits if_splits)

lemma page_body_Throw_error:
  assumes "page_body filter_date offset allRecords outcome = Throw e"
  shows "e = thrown_error outcome"
  using assms
  by (auto simp: page_body_def thrown_error_def Let_def
      split: fetch_outcome.splits option.splits if_splits)

lemma page_body_Continue_pass:
  "(\<exists>offset' allRecords'. page_body filter_date offset allRecords outcome =
        Continue offset' allRecords') = (\<not> pass_stops filter_date offset outcome)"
  unfolding pass_stops_def by (rule page_body_Continue_iff)

lemma fetchLoop_first_stop:
  assumes "offset < 200000"
  shows "\<exists>k. (\<forall>j<k. \<not> pass_stops filter_date (offset + j * limit)
                        (fetch_page (offset + j * limit))) \<and>
     pass_stops filter_date (offset + k * limit) (fetch_page (offset + k * limit)) \<and>
     fetchLoop fetch_page filter_date offset allRecords requests =
       (requests + Suc k,
        if request_failed (fetch_page (offset + k * limit))
        then Inl (thrown_error (fetch_page (offset + k * limit)))
        else Inr (allRecords @
                  concat (map (\<lambda>j. page_records filter_date (fetch_page (offset + j * limit)))
                            [0..<Suc k])))"
  using assms
proof (induction fetch_page filter_date offset allRecords requests rule: fetchLoop.induct)
  case (1 fetch_page filter_date offset allRecords requests)
  let ?out = "fetch_page offset"
  show ?case
  proof (cases "page_body filter_date offset allRecords ?out")
    case (Throw e)
    have failed: "request_failed ?out"
      using page_body_Throw_iff[of filter_date offset allRecords ?out] Throw by simp
    have stop: "pass_stops filter_date offset ?out"
      using failed by (simp add: pass_stops_def)
    have e: "e = thrown_error ?out" by (rule page_body_Throw_error[OF Throw])
    show ?thesis
      by (rule exI[of _ 0]) (use "1.prems" Throw failed stop e in simp)
  next
    case (Break r)
    have nofail: "\<not> request_failed ?out"
      using page_body_Throw_iff[of filter_date offset allRecords ?out] Break by simp
    have stop: "pass_stops filter_date offset ?out"
      using page_body_Continue_pass[of filter_date offset allRecords ?out] Break by simp
    have r: "r = allRecords @ page_records filter_date ?out"
      by (rule page_body_Break_records[OF Break])
    show ?thesis
      by (rule exI[of _ 0]) (use "1.prems" Break nofail stop r in simp)
  next
    case (Continue o1 r)
    have go: "\<not> pass_stops filter_date offset ?out"
      using page_body_Continue_pass[of filter_date offset allRecords ?out] Continue by blast
    from page_body_Continue_offset[OF Continue]
    have o1: "o1 = offset + limit" and lt: "o1 < 200000"
      by (simp_all add: limit_def maxPages_def)
    have r: "r = allRecords @ page_records filter_date ?out"
      by (rule page_body_Continue_records[OF Continue])
    from "1.IH"[OF "1.prems" Continue lt] obtain k where
      before: "\<forall>j<k. \<not> pass_stops filter_date (o1 + j * limit) (fetch_page (o1 + j * limit))"
      and at: "pass_stops filter_date (o1 + k * limit) (fetch_page (o1 + k * limit))"
      and run: "fetchLoop fetch_page filter_date o1 r (Suc requests) =
       (Suc requests + Suc k,
        if request_failed (fetch_page (o1 + k * limit))
        then Inl (thrown_error (fetch_page (o1 + k * limit)))
        else Inr (r @
                  concat (map (\<lambda>j. page_records filter_date (fetch_page (o1 + j * limit)))
                            [0..<Suc k])))"
      by (elim exE conjE)
    have shift: "o1 + j * limit = offset + Suc j * limit" for j
      unfolding o1 by simp
    have before': "\<forall>j<Suc k. \<not> pass_stops filter_date (offset + j * limit)
                        (fetch_page (offset + j * limit))"
    proof (intro allI impI)
      fix j assume j: "j < Suc k"
      show "\<not> pass_stops filter_date (offset + j * limit) (fetch_page (offset + j * limit))"
      proof (cases j)
        case 0
        then show ?thesis using go by simp
      next
        case (Suc i)
        then have "i < k" using j by simp
        with before have "\<not> pass_stops filter_date (o1 + i * limit) (fetch_page (o1 + i * limit))"
          by simp
        then show ?thesis unfolding shift Suc .
      qed
    qed
    have recs: "r @ concat (map (\<lambda>j. page_records filter_date (fetch_page (o1 + j * limit)))
                            [0..<Suc k]) =
        allRecords @
          concat (map (\<lambda>j. page_records filter_date (fetch_page (offset + j * limit)))
                    [0..<Suc (Suc k)])"
      unfolding r shift
      by (subst (2) map_upt_Suc) simp
    have step: "fetchLoop fetch_page filter_date offset allRecords requests =
        fetchLoop fetch_page filter_date o1 r (Suc requests)"
      using "1.prems" Continue by simp
    show ?thesis
      apply (rule exI[of _ "Suc k"])
      unfolding step run recs
      using before' at unfolding shift by simp
  qed
qed

text \<open>
  Claim C7, as the code has it.  The loop is a total function (its termination is proved
  with the definition).  A pass through the body goes on to the next page exactly when
  none of these holds: one of the four conditions of the specification (a page shorter
  than the page size, a newest record older than the watermark, the page cap reached with
  this page, a 429 response), a failed request (a rejected fetch, an error status other
  than 429, an unreadable body), or a body that reports \<open>success: false\<close>.  A failed
  request ends the loop by throwing, a 429 by a \<open>break\<close> that keeps the records collected;
  and when the loop goes on, the offset grows by the page size and stays below the cap.
  The loop itself, started at offset 0, goes through the passes in order and ends at the
  first one that stops, which is among the first 50: if that is pass \<open>k\<close> (counted from 0),
  the loop has sent exactly \<open>k + 1\<close> requests, and it ends with the error of the failed
  request, or else with the records that the passes \<open>0, \<dots>, k\<close> kept, in order.
\<close>

theorem fetchLoop_stops:
  "((\<exists>offset' allRecords'. page_body filter_date offset allRecords outcome =
        Continue offset' allRecords') =
    (\<not> (specified_stop filter_date offset outcome \<or> request_failed outcome \<or>
         unsuccessful outcome))) \<and>
   ((\<exists>e. page_body filter_date offset allRecords outcome = Throw e) = request_failed outcome) \<and>
   (rate_limited outcome \<longrightarrow>
      page_body filter_date offset allRecords outcome = Break allRecords) \<and>
   (\<forall>offset' allRecords'.
      page_body filter_date offset allRecords outcome = Continue offset' allRecords' \<longrightarrow>
      offset' = offset + limit \<and> offset' < maxPages * limit) \<and>
   (\<exists>k<maxPages.
      (\<forall>j<k. \<not> pass_stops filter_date (j * limit) (fetch_page (j * limit))) \<and>
      pass_stops filter_date (k * limit) (fetch_page (k * limit)) \<and>
      fetchLoop fetch_page filter_date 0 [] 0 =
        (Suc k,
         if request_failed (fetch_page (k * limit))
         then Inl (thrown_error (fetch_page (k * limit)))
         else Inr (concat (map (\<lambda>j. page_records filter_date (fetch_page (j * limit)))
                             [0..<Suc k]))))"
proof -
  from fetchLoop_first_stop[of 0 filter_date fetch_page "[]" 0] obtain k where
    before: "\<forall>j<k. \<not> pass_stops filter_date (j * limit) (fetch_page (j * limit))" and
    at: "pass_stops filter_date (k * limit) (fetch_page (k * limit))" and
    run: "fetchLoop fetch_page filter_date 0 [] 0 =
        (Suc k,
         if request_failed (fetch_page (k * limit))
         then Inl (thrown_error (fetch_page (k * limit)))
         else Inr (concat (map (\<lambda>j. page_records filter_date (fetch_page (j * limit)))
                             [0..<Suc k])))"
    by auto
  have "Suc k \<le> maxPages"
    using fetchLoop_requests[of fetch_page filter_date 0 "[]" 0] run
    by (simp add: maxPages_def)
  then have k: "k < maxPages" by simp
  have loop: "\<exists>k<maxPages.
      (\<forall>j<k. \<not> pass_stops filter_date (j * limit) (fetch_page (j * limit))) \<and>
      pass_stops filter_date (k * limit) (fetch_page (k * limit)) \<and>
      fetchLoop fetch_page filter_date 0 [] 0 =
        (Suc k,
         if request_failed (fetch_page (k * limit))
         then Inl (thrown_error (fetch_page (k * limit)))
         else Inr (concat (map (\<lambda>j. page_records filter_date (fetch_page (j * limit)))
                             [0..<Suc k])))"
    using k before at run by blast
  show ?thesis
    using page_body_Continue_iff[of filter_date offset allRecords outcome]
      page_body_Throw_iff[of filter_date offset allRecords outcome]
      page_body_rate_limited[of outcome filter_date offset allRecords]
      page_body_Continue_offset[of filter_date offset allRecords outcome] loop
    by blast
qed

lemma full_page_continues:
  "page_body ''2026-05'' 0 []
     (Response 200 ''OK''
        (Some \<lparr>success = True,
               records = replicate 1000 (sample_record ''2026-10'' ''500000'')\<rparr>)) =
   Continue 1000 (replicate 1000 (sample_record ''2026-10'' ''500000''))"
  by (simp add: page_body_success limit_def maxPages_def sample_record_def)

lemma sample_passes:
  "\<not> pass_stops ''2026-05'' 0 (fetch sample_env 0)"
  "\<not> pass_stops ''2026-05'' 1000 (fetch sample_env 1000)"
  "pass_stops ''2026-05'' 2000 (fetch sample_env 2000)"
  "\<not> request_failed (fetch sample_env 2000)"
  by (simp_all add: pass_stops_def specified_stop_def request_failed_def unsuccessful_def
      page_of_def rate_limited_def sample_env_def sample_record_def limit_def maxPages_def)

lemma sample_page_records:
  "page_records ''2026-05'' (fetch sample_env 0) =
     replicate 1000 (sample_record ''2026-10'' ''450000'')"
  "page_records ''2026-05'' (fetch sample_env 1000) =
     replicate 1000 (sample_record ''2026-10'' ''300000'')"
  "page_records ''2026-05'' (fetch sample_env 2000) = []"
  by (simp_all add: page_records_def sample_env_def sample_record_def)

theorem fetchLoop_stops_witness:
  "fetchLoop (fetch sample_env) ''2026-05'' 0 [] 0 =
     (3, Inr (replicate 1000 (sample_record ''2026-10'' ''450000'') @
              replicate 1000 (sample_record ''2026-10'' ''300000''))) \<and>
   page_body ''2026-05'' 0 [] (Response 429 ''Too Many Requests'' None) = Break [] \<and>
   (1000::nat) = 0 + limit \<and> (1000::nat) < maxPages * limit"
proof -
  have r: "rate_limited (Response 429 ''Too Many Requests'' None)"
    by (simp add: rate_limited_def)
  note a = fetchLoop_stops[of "''2026-05''" 0 "[]" "Response 429 ''Too Many Requests'' None"
      "fetch sample_env"]
  note b = fetchLoop_stops[of "''2026-05''" 0 "[]"
      "Response 200 ''OK''
        (Some \<lparr>success = True,
               records = replicate 1000 (sample_record ''2026-10'' ''500000'')\<rparr>)"
      "fetch sample_env"]
  from a obtain k where
    before: "\<forall>j<k. \<not> pass_stops ''2026-05'' (j * limit) (fetch sample_env (j * limit))" and
    at: "pass_stops ''2026-05'' (k * limit) (fetch sample_env (k * limit))" and
    run: "fetchLoop (fetch sample_env) ''2026-05'' 0 [] 0 =
        (Suc k,
         if request_failed (fetch sample_env (k * limit))
         then Inl (thrown_error (fetch sample_env (k * limit)))
         else Inr (concat (map (\<lambda>j. page_records ''2026-05'' (fetch sample_env (j * limit)))
                             [0..<Suc k])))"
    by auto
  have k: "k = 2"
  proof (rule ccontr)
    assume "k \<noteq> 2"
    then consider "k = 0" | "k = 1" | "2 < k" by linarith
    then show False
    proof cases
      case 1
      with at sample_passes(1) show False by simp
    next
      case 2
      with at sample_passes(2) show False by (simp add: limit_def)
    next
      case 3
      with before have "\<not> pass_stops ''2026-05'' (2 * limit) (fetch sample_env (2 * limit))"
        by blast
      with sample_passes(3) show False by (simp add: limit_def)
    qed
  qed
  have upt: "[0..<Suc 2] = [0, 1, 2]"
    by (simp add: upt_rec)
  have loop: "fetchLoop (fetch sample_env) ''2026-05'' 0 [] 0 =
     (3, Inr (replicate 1000 (sample_record ''2026-10'' ''450000'') @
              replicate 1000 (sample_record ''2026-10'' ''300000'')))"
    using run sample_passes(4) unfolding k upt
    by (simp add: limit_def sample_page_records)
  show ?thesis
    using a b r full_page_continues loop by blast
qed

text \<open>
  The four conditions are not the only stops: a response with status 500 ends the loop
  (by throwing), and so does a full page of current records whose body reports
  \<open>success: false\<close>, while none of the four conditions holds.
\<close>

theorem fetchLoop_stops_counterexample:
  "page_body ''2026-05'' 0 [] (Response 500 ''Internal Server Error'' None) =
     Throw (HttpStatus 500 ''Internal Server Error'') \<and>
   \<not> specified_stop ''2026-05'' 0 (Response 500 ''Internal Server Error'' None) \<and>
   page_body ''2026-05'' 0 []
     (Response 200 ''OK''
        (Some \<lparr>success = False,
               records = replicate 1000 (sample_record ''2026-10'' ''500000'')\<rparr>)) =
     Break [] \<and>
   \<not> specified_stop ''2026-05'' 0
     (Response 200 ''OK''
        (Some \<lparr>success = False,
               records = replicate 1000 (sample_record ''2026-10'' ''500000'')\<rparr>))"
  by (simp add: page_body_def specified_stop_def page_of_def rate_limited_def limit_def
      maxPages_def sample_record_def)

subsection \<open>Batch insert\<close>

lemma insert_or_ignore_seen:
  assumes "\<forall>t. stmt = Some t \<longrightarrow> natural_key t \<in> natural_key ` set table"
  shows "insert_or_ignore stmt table = (0, table)"
  using assms by (cases stmt) (simp_all add: insert_or_ignore_def)

lemma insert_or_ignore_keys:
  "natural_key ` set (snd (insert_or_ignore stmt table)) =
     natural_key ` set table \<union> natural_key ` set_option stmt"
  by (cases stmt) (auto simp: insert_or_ignore_def)

lemma insert_or_ignore_prefix:
  "\<exists>new. snd (insert_or_ignore stmt table) = table @ new \<and>
         length new = fst (insert_or_ignore stmt table)"
  by (cases stmt) (auto simp: insert_or_ignore_def)

lemma insert_or_ignore_distinct:
  "distinct (map natural_key table) \<Longrightarrow>
   distinct (map natural_key (snd (insert_or_ignore stmt table)))"
  by (cases stmt) (auto simp: insert_or_ignore_def)

lemma insert_or_ignore_changes:
  "fst (insert_or_ignore stmt table) \<le> 1"
  by (cases stmt) (auto simp: insert_or_ignore_def)

lemma DB_batch_seen:
  assumes "\<forall>t. Some t \<in> set stmts \<longrightarrow> natural_key t \<in> natural_key ` set table"
  shows "DB_batch stmts table = (replicate (length stmts) 0, table)"
  using assms
proof (induction stmts)
  case Nil
  then show ?case by simp
next
  case (Cons stmt stmts)
  have "insert_or_ignore stmt table = (0, table)"
    by (rule insert_or_ignore_seen) (use Cons.prems in auto)
  moreover have "DB_batch stmts table = (replicate (length stmts) 0, table)"
    by (rule Cons.IH) (use Cons.prems in auto)
  ultimately show ?case by simp
qed

lemma DB_batch_keys:
  "natural_key ` set (snd (DB_batch stmts table)) =
     natural_key ` set table \<union> natural_key ` {t. Some t \<in> set stmts}"
proof (induction stmts arbitrary: table)
  case Nil
  then show ?case by simp
next
  case (Cons stmt stmts)
  obtain c table' where s: "insert_or_ignore stmt table = (c, table')"
    by (cases "insert_or_ignore stmt table")
  have k: "natural_key ` set table' = natural_key ` set table \<union> natural_key ` set_option stmt"
    using insert_or_ignore_keys[of stmt table] s by simp
  have "{t. Some t \<in> set (stmt # stmts)} = set_option stmt \<union> {t. Some t \<in> set stmts}"
    by (cases stmt) auto
  then show ?case
    using Cons.IH[of table'] s k by (auto simp: split_beta)
qed

lemma DB_batch_prefix:
  "\<exists>new. snd (DB_batch stmts table) = table @ new \<and>
         length new = length (filter (\<lambda>changes. changes > 0) (fst (DB_batch stmts table)))"
proof (induction stmts arbitrary: table)
  case Nil
  then show ?case by simp
next
  case (Cons stmt stmts)
  obtain c table' where s: "insert_or_ignore stmt table = (c, table')"
    by (cases "insert_or_ignore stmt table")
  from insert_or_ignore_prefix[of stmt table] s
  obtain new1 where n1: "table' = table @ new1" "length new1 = c" by auto
  from Cons.IH[of table']
  obtain new2 where n2: "snd (DB_batch stmts table') = table' @ new2"
    "length new2 = length (filter (\<lambda>changes. changes > 0) (fst (DB_batch stmts table')))"
    by blast
  have c1: "c \<le> 1" using insert_or_ignore_changes[of stmt table] s by simp
  have "length (new1 @ new2) =
      length (filter (\<lambda>changes. changes > 0) (c # fst (DB_batch stmts table')))"
    using n1(2) n2(2) c1 by (cases "c = 0") auto
  then show ?case
    using s n1 n2 by (auto simp: split_beta intro!: exI[of _ "new1 @ new2"])
qed

lemma DB_batch_distinct:
  "distinct (map natural_key table) \<Longrightarrow>
   distinct (map natural_key (snd (DB_batch stmts table)))"
proof (induction stmts arbitrary: table)
  case Nil
  then show ?case by simp
next
  case (Cons stmt stmts)
  show ?case
    using Cons.IH[OF insert_or_ignore_distinct[OF Cons.prems, of stmt]]
    by (simp add: split_beta)
qed

lemma DB_batch_append:
  "DB_batch (xs @ ys) table =
     (fst (DB_batch xs table) @ fst (DB_batch ys (snd (DB_batch xs table))),
      snd (DB_batch ys (snd (DB_batch xs table))))"
  by (induction xs arbitrary: table) (simp_all add: split_beta)

declare insertBatches.simps [simp del]

lemma insertBatches_sequential:
  "insertBatches env allRecords i insertedCount table =
     (insertedCount +
        length (filter (\<lambda>changes. changes > 0)
          (fst (DB_batch (map (insert_values env) (drop i allRecords)) table))),
      snd (DB_batch (map (insert_values env) (drop i allRecords)) table))"
proof (induction env allRecords i insertedCount table rule: insertBatches.induct)
  case (1 env allRecords i insertedCount table)
  show ?case
  proof (cases "i < length allRecords")
    case False
    then show ?thesis by (subst insertBatches.simps) simp
  next
    case True
    define batch where "batch = take batchSize (drop i allRecords)"
    define statements where "statements = map (insert_values env) batch"
    define results where "results = fst (DB_batch statements table)"
    define table' where "table' = snd (DB_batch statements table)"
    define batchInserted where
      "batchInserted = length (filter (\<lambda>changes. changes > 0) results)"
    have "drop i allRecords = batch @ drop batchSize (drop i allRecords)"
      unfolding batch_def by (rule append_take_drop_id[symmetric])
    then have split: "drop i allRecords = batch @ drop (i + batchSize) allRecords"
      by (simp only: drop_drop add.commute)
    have IH: "insertBatches env allRecords (i + batchSize) (insertedCount + batchInserted) table' =
       (insertedCount + batchInserted +
        length (filter (\<lambda>changes. changes > 0)
          (fst (DB_batch (map (insert_values env) (drop (i + batchSize) allRecords)) table'))),
      snd (DB_batch (map (insert_values env) (drop (i + batchSize) allRecords)) table'))"
      by (rule "1.IH"[OF True batch_def statements_def _ _ batchInserted_def])
        (simp_all add: results_def table'_def)
    have step: "insertBatches env allRecords i insertedCount table =
        insertBatches env allRecords (i + batchSize) (insertedCount + batchInserted) table'"
      using True
      by (subst insertBatches.simps)
        (simp add: Let_def split_beta batch_def statements_def results_def table'_def
          batchInserted_def)
    have "map (insert_values env) (drop i allRecords) =
        statements @ map (insert_values env) (drop (i + batchSize) allRecords)"
      unfolding statements_def by (subst split) simp
    then have whole: "DB_batch (map (insert_values env) (drop i allRecords)) table =
        (results @
           fst (DB_batch (map (insert_values env) (drop (i + batchSize) allRecords)) table'),
         snd (DB_batch (map (insert_values env) (drop (i + batchSize) allRecords)) table'))"
      by (simp add: DB_batch_append results_def table'_def)
    show ?thesis
      unfolding step IH whole by (simp add: batchInserted_def)
  qed
qed

lemma insertRecords_sequential:
  "insertRecords env allRecords table =
     (length (filter (\<lambda>changes. changes > 0)
          (fst (DB_batch (map (insert_values env) allRecords) table))),
      snd (DB_batch (map (insert_values env) allRecords) table))"
  by (cases "allRecords = []") (simp_all add: insertRecords_def insertBatches_sequential)

lemma insertRecords_keys:
  "natural_key ` set (snd (insertRecords env allRecords table)) =
     natural_key ` set table \<union>
     natural_key ` {t. \<exists>r\<in>set allRecords. insert_values env r = Some t}"
proof -
  have "{t. Some t \<in> insert_values env ` set allRecords} =
      {t. \<exists>r\<in>set allRecords. insert_values env r = Some t}"
    by force
  then show ?thesis
    by (simp add: insertRecords_sequential DB_batch_keys)
qed

lemma insertRecords_prefix:
  "\<exists>new. snd (insertRecords env allRecords table) = table @ new \<and>
         length new = fst (insertRecords env allRecords table)"
  using DB_batch_prefix[of "map (insert_values env) allRecords" table]
  by (simp add: insertRecords_sequential)

lemma sample_keys:
  "map_option natural_key (insert_values sample_env (sample_record ''2026-10'' ''450000'')) =
     Some (''2026-10'', ''BEDOK'', ''4 ROOM'', ''101'', ''BEDOK NTH AVE 4'', ''04 TO 06'', 450000)"
  "map_option natural_key (insert_values sample_env (sample_record ''2026-09'' ''300000'')) =
     Some (''2026-09'', ''BEDOK'', ''4 ROOM'', ''101'', ''BEDOK NTH AVE 4'', ''04 TO 06'', 300000)"
  by (simp_all add: insert_values_def sample_env_def sample_record_def sample_parseInt_def
      natural_key_def is_digit_def decimal_value_def digit_value_def Let_def)

subsection \<open>Rate limit\<close>

lemma update_sync_transactions: "hdb_transactions (update_sync f DB) = hdb_transactions DB"
  by (simp add: update_sync_def split: option.splits)

lemma update_sync_metadata:
  "sync_metadata (update_sync f DB) ''hdb_data'' = map_option f (sync_metadata DB ''hdb_data'')"
  by (simp add: update_sync_def split: option.splits)

lemma updateStatistics_transactions:
  "hdb_transactions (updateStatistics cutoff DB) = hdb_transactions DB"
  by (simp add: updateStatistics_def)

lemma updateStatistics_metadata:
  "sync_metadata (updateStatistics cutoff DB) = sync_metadata DB"
  by (simp add: updateStatistics_def)

lemma pages_continued_fetchLoop:
  "pages_continued fetch_page filter_date k (offset, allRecords) = Some (offset', allRecords') \<Longrightarrow>
   fetchLoop fetch_page filter_date offset allRecords requests =
     fetchLoop fetch_page filter_date offset' allRecords' (requests + k)"
proof (induction k arbitrary: offset allRecords requests)
  case 0
  then show ?case by simp
next
  case (Suc k)
  from Suc.prems have lt: "offset < 200000"
    by (simp split: if_splits)
  from Suc.prems lt obtain o1 a1 where
    step: "page_body filter_date offset allRecords (fetch_page offset) = Continue o1 a1" and
    rest: "pages_continued fetch_page filter_date k (o1, a1) = Some (offset', allRecords')"
    by (auto split: page_result.splits)
  have "fetchLoop fetch_page filter_date offset allRecords requests =
      fetchLoop fetch_page filter_date o1 a1 (Suc requests)"
    using lt step by simp
  also have "\<dots> = fetchLoop fetch_page filter_date offset' allRecords' (Suc requests + k)"
    by (rule Suc.IH[OF rest])
  finally show ?case by simp
qed

lemma pages_continued_offset:
  "pages_continued fetch_page filter_date k (offset, allRecords) = Some (offset', allRecords') \<Longrightarrow>
   offset < 200000 \<Longrightarrow> offset' < 200000"
proof (induction k arbitrary: offset allRecords)
  case 0
  then show ?case by simp
next
  case (Suc k)
  from Suc.prems obtain o1 a1 where
    step: "page_body filter_date offset allRecords (fetch_page offset) = Continue o1 a1" and
    rest: "pages_continued fetch_page filter_date k (o1, a1) = Some (offset', allRecords')"
    by (auto split: page_result.splits if_splits)
  from page_body_Continue_offset[OF step] have "o1 < 200000"
    by (simp add: limit_def maxPages_def)
  from Suc.IH[OF rest this] show ?case .
qed

lemma fetchLoop_rate_limited:
  assumes "offset < 200000" and "rate_limited (fetch_page offset)"
  shows "fetchLoop fetch_page filter_date offset allRecords requests =
     (Suc requests, Inr allRecords)"
  using assms by (simp add: page_body_rate_limited)

lemma fetchLoop_soft_stop:
  assumes "pages_continued fetch_page filter_date k (0, []) = Some (offset, fetched)"
    and "rate_limited (fetch_page offset)"
  shows "fetchLoop fetch_page filter_date 0 [] 0 = (Suc k, Inr fetched)"
proof -
  have lt: "offset < 200000"
    using pages_continued_offset[OF assms(1)] by simp
  show ?thesis
    using pages_continued_fetchLoop[OF assms(1), of 0]
      fetchLoop_rate_limited[of offset fetch_page filter_date fetched k, OF lt assms(2)]
    by simp
qed

lemma sync_try_soft_stop:
  assumes loop: "snd (fetchLoop (fetch env)
        (filterDate (six_months_ago env) (max_month (hdb_transactions DB))) 0 [] 0) = Inr fetched"
  shows "\<exists>DB'.
     hdb_transactions DB' = snd (insertRecords env fetched (hdb_transactions DB)) \<and>
     sync_metadata DB' ''hdb_data'' =
       map_option
         (\<lambda>r. r\<lparr>last_sync_at := Some (now_iso env),
                records_processed :=
                  int (fst (insertRecords env fetched (hdb_transactions DB))),
                status := ''completed'', error_message := None\<rparr>)
         (sync_metadata DB ''hdb_data'') \<and>
     sync_try env DB =
       (Inr (length fetched, fst (insertRecords env fetched (hdb_transactions DB))), DB')"
proof -
  define DB1 where
    "DB1 = update_sync (\<lambda>r. r\<lparr>status := ''running'', last_sync_at := Some (now_iso env)\<rparr>) DB"
  define DB2 where
    "DB2 = updateStatistics (stats_cutoff env)
       (DB1\<lparr>hdb_transactions := snd (insertRecords env fetched (hdb_transactions DB))\<rparr>)"
  define DB' where
    "DB' = update_sync
       (\<lambda>r. r\<lparr>status := ''completed'',
              records_processed := int (fst (insertRecords env fetched (hdb_transactions DB))),
              error_message := None\<rparr>)
       DB2"
  have t1: "hdb_transactions DB1 = hdb_transactions DB"
    unfolding DB1_def by (rule update_sync_transactions)
  have a: "hdb_transactions DB' = snd (insertRecords env fetched (hdb_transactions DB))"
    unfolding DB'_def DB2_def
    by (simp add: update_sync_transactions updateStatistics_transactions)
  have b: "sync_metadata DB' ''hdb_data'' =
       map_option
         (\<lambda>r. r\<lparr>last_sync_at := Some (now_iso env),
                records_processed :=
                  int (fst (insertRecords env fetched (hdb_transactions DB))),
                status := ''completed'', error_message := None\<rparr>)
         (sync_metadata DB ''hdb_data'')"
    unfolding DB'_def DB2_def DB1_def
    by (cases "sync_metadata DB ''hdb_data''")
      (simp_all add: updateStatistics_metadata update_sync_metadata)
  have c: "sync_try env DB =
       (Inr (length fetched, fst (insertRecords env fetched (hdb_transactions DB))), DB')"
    unfolding sync_try_def Let_def DB1_def[symmetric] t1 loop
    by (simp add: split_beta DB2_def DB'_def)
  show ?thesis by (rule exI[of _ DB']) (simp only: a b c simp_thms)
qed

text \<open>
  Claim C4.  For an authorised request, when the loop has gone through \<open>k\<close> pages and the
  next request is answered with a 429, the loop ends without an error and with the records
  of those pages; the handler inserts them (the table afterwards is the old table with
  these records inserted, so it holds their natural keys and every row it held before),
  answers with status 200 and the count of the records fetched, and leaves the sync state
  \<open>completed\<close> with no error message, not \<open>failed\<close>.
\<close>

theorem GET_rate_limit_soft_stop:
  assumes auth: "cf_cron req = Some ''true'' \<or> secret req = Some ''manual-sync-trigger''"
    and pages: "pages_continued (fetch env)
        (filterDate (six_months_ago env) (max_month (hdb_transactions DB))) k (0, []) =
        Some (offset, fetched)"
    and limited: "rate_limited (fetch env offset)"
  shows "snd (fetchLoop (fetch env)
        (filterDate (six_months_ago env) (max_month (hdb_transactions DB))) 0 [] 0) =
      Inr fetched \<and>
    (\<exists>DB'. GET env req (Some DB) =
         (\<lparr>http_status = 200,
           body = SyncSucceeded (length fetched)
                    (fst (insertRecords env fetched (hdb_transactions DB)))\<rparr>,
          Some DB') \<and>
       hdb_transactions DB' = snd (insertRecords env fetched (hdb_transactions DB)) \<and>
       natural_key ` {t. \<exists>r\<in>set fetched. insert_values env r = Some t}
         \<subseteq> natural_key ` set (hdb_transactions DB') \<and>
       set (hdb_transactions DB) \<subseteq> set (hdb_transactions DB') \<and>
       map_option status (sync_metadata DB' ''hdb_data'') =
         map_option (\<lambda>r. ''completed'') (sync_metadata DB ''hdb_data'') \<and>
       map_option error_message (sync_metadata DB' ''hdb_data'') =
         map_option (\<lambda>r. None) (sync_metadata DB ''hdb_data''))"
proof -
  let ?fd = "filterDate (six_months_ago env) (max_month (hdb_transactions DB))"
  let ?ins = "insertRecords env fetched (hdb_transactions DB)"
  have loop: "snd (fetchLoop (fetch env) ?fd 0 [] 0) = Inr fetched"
    using fetchLoop_soft_stop[OF pages limited] by simp
  from sync_try_soft_stop[OF loop] obtain DB' where
    tx: "hdb_transactions DB' = snd ?ins" and
    md: "sync_metadata DB' ''hdb_data'' =
       map_option
         (\<lambda>r. r\<lparr>last_sync_at := Some (now_iso env),
                records_processed := int (fst ?ins),
                status := ''completed'', error_message := None\<rparr>)
         (sync_metadata DB ''hdb_data'')" and
    st: "sync_try env DB = (Inr (length fetched, fst ?ins), DB')"
    by (elim exE conjE)
  have get: "GET env req (Some DB) =
      (\<lparr>http_status = 200, body = SyncSucceeded (length fetched) (fst ?ins)\<rparr>, Some DB')"
  proof (cases "cf_cron req = Some ''true''")
    case True
    then show ?thesis by (simp add: GET_def st)
  next
    case False
    with auth have "secret req = Some ''manual-sync-trigger''" by simp
    then show ?thesis by (simp add: GET_def st)
  qed
  have keys: "natural_key ` {t. \<exists>r\<in>set fetched. insert_values env r = Some t}
      \<subseteq> natural_key ` set (snd ?ins)"
    by (simp add: insertRecords_keys)
  have kept: "set (hdb_transactions DB) \<subseteq> set (snd ?ins)"
  proof -
    from insertRecords_prefix[of env fetched "hdb_transactions DB"]
    obtain new where "snd ?ins = hdb_transactions DB @ new" by (elim exE conjE)
    then show ?thesis by simp
  qed
  have s1: "map_option status (sync_metadata DB' ''hdb_data'') =
      map_option (\<lambda>r. ''completed'') (sync_metadata DB ''hdb_data'')"
    unfolding md by (simp add: option.map_comp comp_def)
  have s2: "map_option error_message (sync_metadata DB' ''hdb_data'') =
      map_option (\<lambda>r. None) (sync_metadata DB ''hdb_data'')"
    unfolding md by (simp add: option.map_comp comp_def)
  show ?thesis
    using loop get keys kept s1 s2 by (intro conjI exI[of _ DB']) (simp_all add: tx)
qed

lemma sample_page_continues:
  assumes "month r \<ge> ''2026-05''" and "offset < 49000"
  shows "page_body ''2026-05'' offset allRecords
     (Response 200 ''OK'' (Some \<lparr>success = True, records = replicate 1000 r\<rparr>)) =
     Continue (offset + 1000) (allRecords @ replicate 1000 r)"
  using assms by (simp add: page_body_success limit_def maxPages_def not_less[symmetric])

lemma sample_pages:
  "pages_continued (fetch sample_env)
     (filterDate (six_months_ago sample_env) (max_month (hdb_transactions sample_database)))
     (Suc (Suc 0)) (0, []) =
   Some (2000, replicate 1000 (sample_record ''2026-10'' ''450000'') @
               replicate 1000 (sample_record ''2026-10'' ''300000''))"
proof -
  have fd: "filterDate (six_months_ago sample_env)
      (max_month (hdb_transactions sample_database)) = ''2026-05''"
    by (simp add: sample_six_months_ago sample_database_def max_month_def filterDate_def)
  have m: "month (sample_record ''2026-10'' p) \<ge> ''2026-05''" for p
    by (simp add: sample_record_def)
  have p0: "fetch sample_env 0 = Response 200 ''OK''
            (Some \<lparr>success = True,
                   records = replicate 1000 (sample_record ''2026-10'' ''450000'')\<rparr>)"
    by (simp add: sample_env_def)
  have p1: "fetch sample_env 1000 = Response 200 ''OK''
            (Some \<lparr>success = True,
                   records = replicate 1000 (sample_record ''2026-10'' ''300000'')\<rparr>)"
    by (simp add: sample_env_def)
  show ?thesis
    unfolding fd by (simp add: p0 p1 sample_page_continues[OF m])
qed

theorem GET_rate_limit_soft_stop_witness:
  "snd (fetchLoop (fetch sample_env) ''2026-05'' 0 [] 0) =
     Inr (replicate 1000 (sample_record ''2026-10'' ''450000'') @
          replicate 1000 (sample_record ''2026-10'' ''300000'')) \<and>
   (\<exists>DB'. GET sample_env \<lparr>cf_cron = Some ''true'', secret = None\<rparr> (Some sample_database) =
       (\<lparr>http_status = 200,
         body = SyncSucceeded 2000
           (fst (insertRecords sample_env
              (replicate 1000 (sample_record ''2026-10'' ''450000'') @
               replicate 1000 (sample_record ''2026-10'' ''300000'')) []))\<rparr>,
        Some DB') \<and>
      map_option status (sync_metadata DB' ''hdb_data'') = Some ''completed'' \<and>
      (''2026-10'', ''BEDOK'', ''4 ROOM'', ''101'', ''BEDOK NTH AVE 4'', ''04 TO 06'', 450000)
        \<in> natural_key ` set (hdb_transactions DB'))"
proof -
  let ?req = "\<lparr>cf_cron = Some ''true'', secret = None\<rparr>"
  let ?fetched = "replicate 1000 (sample_record ''2026-10'' ''450000'') @
          replicate 1000 (sample_record ''2026-10'' ''300000'')"
  have fd: "filterDate (six_months_ago sample_env)
      (max_month (hdb_transactions sample_database)) = ''2026-05''"
    by (simp add: sample_six_months_ago sample_database_def max_month_def filterDate_def)
  have auth: "cf_cron ?req = Some ''true'' \<or> secret ?req = Some ''manual-sync-trigger''"
    by simp
  have limited: "rate_limited (fetch sample_env 2000)"
    by (simp add: sample_env_def rate_limited_def)
  have tx: "hdb_transactions sample_database = []"
    by (simp add: sample_database_def)
  have md: "map_option (\<lambda>r. ''completed'') (sync_metadata sample_database ''hdb_data'') =
      Some ''completed''"
    by (simp add: sample_database_def)
  obtain t1 where t1: "insert_values sample_env (sample_record ''2026-10'' ''450000'') = Some t1"
    "natural_key t1 =
      (''2026-10'', ''BEDOK'', ''4 ROOM'', ''101'', ''BEDOK NTH AVE 4'', ''04 TO 06'', 450000)"
    using sample_keys(1) by auto
  have k1: "(''2026-10'', ''BEDOK'', ''4 ROOM'', ''101'', ''BEDOK NTH AVE 4'', ''04 TO 06'', 450000)
      \<in> natural_key ` {t. \<exists>r\<in>set ?fetched. insert_values sample_env r = Some t}"
    using t1 by (force simp: image_iff)
  note T = GET_rate_limit_soft_stop[OF auth sample_pages limited]
  have loop: "snd (fetchLoop (fetch sample_env) ''2026-05'' 0 [] 0) = Inr ?fetched"
    using T[THEN conjunct1] unfolding fd .
  from T[THEN conjunct2, unfolded tx] obtain DB' where
    g: "GET sample_env ?req (Some sample_database) =
       (\<lparr>http_status = 200,
         body = SyncSucceeded (length ?fetched) (fst (insertRecords sample_env ?fetched []))\<rparr>,
        Some DB')" and
    s: "map_option status (sync_metadata DB' ''hdb_data'') =
       map_option (\<lambda>r. ''completed'') (sync_metadata sample_database ''hdb_data'')" and
    k: "natural_key ` {t. \<exists>r\<in>set ?fetched. insert_values sample_env r = Some t}
        \<subseteq> natural_key ` set (hdb_transactions DB')"
    by (elim conjE exE)
  have k1': "(''2026-10'', ''BEDOK'', ''4 ROOM'', ''101'', ''BEDOK NTH AVE 4'', ''04 TO 06'', 450000)
        \<in> natural_key ` set (hdb_transactions DB')"
    using k k1 by (rule subsetD)
  show ?thesis
    using loop g k1' s md by (intro conjI exI[of _ DB']) simp_all
qed

subsection \<open>A second run with a later watermark\<close>

lemma page_body_later_watermark:
  assumes le: "filter_date \<le> filter_date'" and sub: "set allRecords' \<subseteq> set allRecords"
  shows "case page_body filter_date offset allRecords outcome of
           Throw e \<Rightarrow> True
         | Break r \<Rightarrow>
             (\<exists>r'. page_body filter_date' offset allRecords' outcome = Break r' \<and>
                   set r' \<subseteq> set r)
         | Continue o1 r \<Rightarrow>
             (\<exists>r'. (page_body filter_date' offset allRecords' outcome = Break r' \<or>
                    page_body filter_date' offset allRecords' outcome = Continue o1 r') \<and>
                   set r' \<subseteq> set r)"
proof (cases "\<exists>st statusText data. outcome = Response st statusText (Some data) \<and>
                200 \<le> st \<and> st \<le> 299 \<and> success data \<and> records data \<noteq> []")
  case False
  then show ?thesis
    using sub
    by (auto simp: page_body_def split: fetch_outcome.splits option.splits)
next
  case True
  then obtain st statusText data where
    out: "outcome = Response st statusText (Some data)" and
    ok: "200 \<le> st" "st \<le> 299" "success data" "records data \<noteq> []"
    by blast
  have f: "set (filter (\<lambda>r. month r \<ge> filter_date') (records data)) \<subseteq>
      set (filter (\<lambda>r. month r \<ge> filter_date) (records data))"
    using le by auto
  have n: "month (hd (records data)) < filter_date \<Longrightarrow>
      month (hd (records data)) < filter_date'"
    using le by simp
  show ?thesis
    unfolding out page_body_success[OF ok]
    using f n sub by auto
qed

lemma page_body_keeps:
  "page_body filter_date offset allRecords outcome = Break r \<Longrightarrow> set allRecords \<subseteq> set r"
  "page_body filter_date offset allRecords outcome = Continue o1 r \<Longrightarrow>
     set allRecords \<subseteq> set r"
  by (auto simp: page_body_def Let_def
      split: fetch_outcome.splits option.splits if_splits)

lemma fetchLoop_keeps:
  "snd (fetchLoop fetch_page filter_date offset allRecords requests) = Inr fetched \<Longrightarrow>
   set allRecords \<subseteq> set fetched"
proof (induction fetch_page filter_date offset allRecords requests rule: fetchLoop.induct)
  case (1 fetch_page filter_date offset allRecords requests)
  show ?case
  proof (cases "offset < 200000")
    case False
    then show ?thesis using "1.prems" by simp
  next
    case True
    show ?thesis
    proof (cases "page_body filter_date offset allRecords (fetch_page offset)")
      case (Throw e)
      then show ?thesis using "1.prems" True by simp
    next
      case (Break r)
      then show ?thesis using "1.prems" True page_body_keeps(1)[OF Break] by simp
    next
      case (Continue o1 r)
      with "1.prems" True
      have "snd (fetchLoop fetch_page filter_date o1 r (Suc requests)) = Inr fetched"
        by simp
      from "1.IH"[OF True Continue this] page_body_keeps(2)[OF Continue]
      show ?thesis by simp
    qed
  qed
qed

lemma fetchLoop_later_watermark:
  assumes "filter_date \<le> filter_date'"
    and "set allRecords' \<subseteq> set allRecords"
    and "snd (fetchLoop fetch_page filter_date offset allRecords requests) = Inr fetched"
  shows "\<exists>fetched'.
     snd (fetchLoop fetch_page filter_date' offset allRecords' requests') = Inr fetched' \<and>
     set fetched' \<subseteq> set fetched"
  using assms
proof (induction fetch_page filter_date offset allRecords requests
    arbitrary: allRecords' requests' rule: fetchLoop.induct)
  case (1 fetch_page filter_date offset allRecords requests)
  show ?case
  proof (cases "offset < 200000")
    case False
    then show ?thesis using "1.prems" by simp
  next
    case True
    note rel = page_body_later_watermark[OF "1.prems"(1,2), of offset "fetch_page offset"]
    show ?thesis
    proof (cases "page_body filter_date offset allRecords (fetch_page offset)")
      case (Throw e)
      then show ?thesis using "1.prems"(3) True by simp
    next
      case (Break r)
      with "1.prems"(3) True have r: "r = fetched" by simp
      from rel Break obtain r' where
        "page_body filter_date' offset allRecords' (fetch_page offset) = Break r'"
        "set r' \<subseteq> set r" by auto
      then show ?thesis using True r by auto
    next
      case (Continue o1 r)
      with "1.prems"(3) True
      have rest: "snd (fetchLoop fetch_page filter_date o1 r (Suc requests)) = Inr fetched"
        by simp
      from rel Continue obtain r' where
        r': "page_body filter_date' offset allRecords' (fetch_page offset) = Break r' \<or>
             page_body filter_date' offset allRecords' (fetch_page offset) = Continue o1 r'"
        and sub: "set r' \<subseteq> set r" by auto
      from r' show ?thesis
      proof
        assume b: "page_body filter_date' offset allRecords' (fetch_page offset) = Break r'"
        have "set r \<subseteq> set fetched"
          by (rule fetchLoop_keeps[OF rest])
        then show ?thesis using b True sub by auto
      next
        assume c: "page_body filter_date' offset allRecords' (fetch_page offset) = Continue o1 r'"
        from "1.IH"[OF True Continue "1.prems"(1) sub rest, of "Suc requests'"]
        show ?thesis using c True by simp
      qed
    qed
  qed
qed

lemma filterDate_mono:
  assumes "sixMonthsAgo \<le> sixMonthsAgo'" and "set table \<subseteq> set table'"
  shows "filterDate sixMonthsAgo (max_month table) \<le> filterDate sixMonthsAgo' (max_month table')"
proof (cases "table = []")
  case True
  then show ?thesis
    using assms(1) by (auto simp: filterDate_later)
next
  case False
  then have ne': "table' \<noteq> []" using assms(2) by auto
  have "Max (col_month ` set table) \<le> Max (col_month ` set table')"
    by (rule Max_mono) (use False assms(2) in auto)
  then show ?thesis
    using assms(1) False ne' by (auto simp: filterDate_later)
qed

lemma insert_values_same_builtins:
  assumes "parseInt env2 = parseInt env" and "parseFloat env2 = parseFloat env"
  shows "insert_values env2 = insert_values env"
  by (rule ext) (unfold insert_values_def assms, rule refl)

lemma insertRecords_seen:
  assumes "\<forall>r\<in>set rs. \<forall>t. insert_values env r = Some t \<longrightarrow>
      natural_key t \<in> natural_key ` set table"
  shows "insertRecords env rs table = (0, table)"
proof -
  have "\<forall>t. Some t \<in> set (map (insert_values env) rs) \<longrightarrow>
      natural_key t \<in> natural_key ` set table"
    using assms by auto
  from DB_batch_seen[OF this] show ?thesis
    by (simp add: insertRecords_sequential)
qed

lemma sync_try_thrown:
  assumes "snd (fetchLoop (fetch env)
        (filterDate (six_months_ago env) (max_month (hdb_transactions DB))) 0 [] 0) = Inl e"
  shows "fst (sync_try env DB) = Inl e"
  using assms
  by (simp add: sync_try_def Let_def update_sync_transactions del: fetchLoop.simps)

lemma sync_twice:
  assumes first: "sync_try env DB = (Inr (fetched1, inserted1), DB1)"
    and same: "fetch env2 = fetch env" "parseInt env2 = parseInt env"
      "parseFloat env2 = parseFloat env"
    and clock: "six_months_ago env \<le> six_months_ago env2"
  shows "\<exists>fetched2 DB2. sync_try env2 DB1 = (Inr (fetched2, 0), DB2) \<and>
     hdb_transactions DB2 = hdb_transactions DB1"
proof -
  let ?fd1 = "filterDate (six_months_ago env) (max_month (hdb_transactions DB))"
  let ?fd2 = "filterDate (six_months_ago env2) (max_month (hdb_transactions DB1))"
  obtain recs1 where loop1: "snd (fetchLoop (fetch env) ?fd1 0 [] 0) = Inr recs1"
  proof (cases "snd (fetchLoop (fetch env) ?fd1 0 [] 0)")
    case (Inl e)
    from sync_try_thrown[OF this] first show ?thesis by simp
  next
    case (Inr recs)
    then show ?thesis by (rule that)
  qed
  from sync_try_soft_stop[OF loop1] first
  have tx1: "hdb_transactions DB1 = snd (insertRecords env recs1 (hdb_transactions DB))"
    by auto
  have grown: "set (hdb_transactions DB) \<subseteq> set (hdb_transactions DB1)"
  proof -
    from insertRecords_prefix[of env recs1 "hdb_transactions DB"]
    obtain new where "snd (insertRecords env recs1 (hdb_transactions DB)) =
        hdb_transactions DB @ new" by (elim exE conjE)
    then show ?thesis unfolding tx1 by simp
  qed
  have fd: "?fd1 \<le> ?fd2" by (rule filterDate_mono[OF clock grown])
  from fetchLoop_later_watermark[OF fd _ loop1, of "[]" 0]
  obtain recs2 where loop2: "snd (fetchLoop (fetch env) ?fd2 0 [] 0) = Inr recs2"
    and sub: "set recs2 \<subseteq> set recs1" by auto
  have loop2': "snd (fetchLoop (fetch env2) ?fd2 0 [] 0) = Inr recs2"
    using loop2 same(1) by simp
  have iv: "insert_values env2 = insert_values env"
    by (rule insert_values_same_builtins[OF same(2,3)])
  have seen: "\<forall>r\<in>set recs2. \<forall>t. insert_values env2 r = Some t \<longrightarrow>
      natural_key t \<in> natural_key ` set (hdb_transactions DB1)"
    unfolding iv tx1 insertRecords_keys using sub by auto
  have ins2: "insertRecords env2 recs2 (hdb_transactions DB1) = (0, hdb_transactions DB1)"
    by (rule insertRecords_seen[OF seen])
  from sync_try_soft_stop[OF loop2'] obtain DB2 where
    "hdb_transactions DB2 = snd (insertRecords env2 recs2 (hdb_transactions DB1))"
    "sync_try env2 DB1 =
       (Inr (length recs2, fst (insertRecords env2 recs2 (hdb_transactions DB1))), DB2)"
    by (elim exE conjE)
  then show ?thesis unfolding ins2 by simp
qed

subsection \<open>Idempotence\<close>

lemma GET_succeeded:
  assumes "GET env req (Some DB) =
      (\<lparr>http_status = 200, body = SyncSucceeded fetched inserted\<rparr>, Some DB')"
  shows "(cf_cron req = Some ''true'' \<or> secret req = Some ''manual-sync-trigger'') \<and>
     sync_try env DB = (Inr (fetched, inserted), DB')"
proof -
  have auth: "cf_cron req = Some ''true'' \<or> secret req = Some ''manual-sync-trigger''"
  proof (rule ccontr)
    assume "\<not> (cf_cron req = Some ''true'' \<or> secret req = Some ''manual-sync-trigger'')"
    then have "GET env req (Some DB) = (\<lparr>http_status = 401, body = Unauthorized\<rparr>, Some DB)"
      by (simp add: GET_def)
    with assms show False by simp
  qed
  obtain res DB2 where st: "sync_try env DB = (res, DB2)"
    by (cases "sync_try env DB")
  have get: "GET env req (Some DB) =
      (case (res, DB2) of
         (Inr (fetched', inserted'), DB3) \<Rightarrow>
           (\<lparr>http_status = 200, body = SyncSucceeded fetched' inserted'\<rparr>, Some DB3)
       | (Inl e, DB3) \<Rightarrow>
           (\<lparr>http_status = 500, body = SyncFailed e\<rparr>,
            Some (update_sync (\<lambda>r. r\<lparr>status := ''failed'', error_message := Some e\<rparr>) DB3)))"
    using auth unfolding st[symmetric] by (auto simp: GET_def)
  show ?thesis
    using assms auth unfolding get st by (cases res) auto
qed

lemma GET_authorised:
  assumes "cf_cron req = Some ''true'' \<or> secret req = Some ''manual-sync-trigger''"
    and "sync_try env DB = (Inr (fetched, inserted), DB')"
  shows "GET env req (Some DB) =
      (\<lparr>http_status = 200, body = SyncSucceeded fetched inserted\<rparr>, Some DB')"
  using assms by (auto simp: GET_def)

lemma GET_twice:
  assumes first: "GET env req (Some DB) =
      (\<lparr>http_status = 200, body = SyncSucceeded fetched1 inserted1\<rparr>, Some DB1)"
    and same: "fetch env2 = fetch env" "parseInt env2 = parseInt env"
      "parseFloat env2 = parseFloat env"
    and clock: "six_months_ago env \<le> six_months_ago env2"
  shows "\<exists>fetched2 DB2. GET env2 req (Some DB1) =
      (\<lparr>http_status = 200, body = SyncSucceeded fetched2 0\<rparr>, Some DB2) \<and>
     hdb_transactions DB2 = hdb_transactions DB1"
proof -
  from GET_succeeded[OF first]
  have auth: "cf_cron req = Some ''true'' \<or> secret req = Some ''manual-sync-trigger''"
    and st: "sync_try env DB = (Inr (fetched1, inserted1), DB1)" by simp_all
  from sync_twice[OF st same clock] obtain fetched2 DB2 where
    st2: "sync_try env2 DB1 = (Inr (fetched2, 0), DB2)" and
    tx: "hdb_transactions DB2 = hdb_transactions DB1" by (elim exE conjE)
  show ?thesis
    using GET_authorised[OF auth st2] tx by (intro exI[of _ fetched2] exI[of _ DB2]) simp
qed

lemma GET_first_run:
  assumes first: "GET env req (Some DB) =
      (\<lparr>http_status = 200, body = SyncSucceeded fetched1 inserted1\<rparr>, Some DB1)"
  shows "\<exists>fetched.
     snd (fetchLoop (fetch env)
            (filterDate (six_months_ago env) (max_month (hdb_transactions DB))) 0 [] 0) =
       Inr fetched \<and>
     fetched1 = length fetched \<and>
     insertRecords env fetched (hdb_transactions DB) = (inserted1, hdb_transactions DB1)"
proof -
  let ?fd = "filterDate (six_months_ago env) (max_month (hdb_transactions DB))"
  from GET_succeeded[OF first]
  have st: "sync_try env DB = (Inr (fetched1, inserted1), DB1)" by simp
  show ?thesis
  proof (cases "snd (fetchLoop (fetch env) ?fd 0 [] 0)")
    case (Inl e)
    from sync_try_thrown[OF this] st show ?thesis by simp
  next
    case (Inr fetched)
    from sync_try_soft_stop[OF Inr] obtain DB' where
      tx: "hdb_transactions DB' = snd (insertRecords env fetched (hdb_transactions DB))" and
      st': "sync_try env DB =
        (Inr (length fetched, fst (insertRecords env fetched (hdb_transactions DB))), DB')"
      by (elim exE conjE)
    from st st' have eq: "fetched1 = length fetched"
      "inserted1 = fst (insertRecords env fetched (hdb_transactions DB))" "DB1 = DB'"
      by simp_all
    have "insertRecords env fetched (hdb_transactions DB) = (inserted1, hdb_transactions DB1)"
      unfolding eq tx by simp
    with Inr eq(1) show ?thesis by (intro exI[of _ fetched]) (simp only: simp_thms)
  qed
qed

lemma GET_run:
  assumes auth: "cf_cron req = Some ''true'' \<or> secret req = Some ''manual-sync-trigger''"
    and loop: "snd (fetchLoop (fetch env)
            (filterDate (six_months_ago env) (max_month (hdb_transactions DB))) 0 [] 0) =
       Inr fetched"
  shows "\<exists>DB1. GET env req (Some DB) =
       (\<lparr>http_status = 200,
         body = SyncSucceeded (length fetched)
                  (fst (insertRecords env fetched (hdb_transactions DB)))\<rparr>, Some DB1) \<and>
     hdb_transactions DB1 = snd (insertRecords env fetched (hdb_transactions DB))"
proof -
  from sync_try_soft_stop[OF loop] obtain DB' where
    tx: "hdb_transactions DB' = snd (insertRecords env fetched (hdb_transactions DB))" and
    st': "sync_try env DB =
      (Inr (length fetched, fst (insertRecords env fetched (hdb_transactions DB))), DB')"
    by (elim exE conjE)
  show ?thesis
    using GET_authorised[OF auth st'] tx by (intro exI[of _ DB']) (simp only: simp_thms)
qed

lemma DB_batch_replicate:
  "DB_batch (replicate (Suc n) (Some t)) table =
     (if natural_key t \<in> natural_key ` set table then (replicate (Suc n) 0, table)
      else (1 # replicate n 0, table @ [t]))"
proof (cases "natural_key t \<in> natural_key ` set table")
  case True
  then show ?thesis
    using DB_batch_seen[of "replicate (Suc n) (Some t)" table] by auto
next
  case False
  have "DB_batch (replicate n (Some t)) (table @ [t]) = (replicate n 0, table @ [t])"
    using DB_batch_seen[of "replicate n (Some t)" "table @ [t]"] by auto
  with False show ?thesis
    by (simp add: insert_or_ignore_def)
qed

lemma sample_values:
  "\<exists>t. insert_values sample_env (sample_record m p) = Some t \<and>
       natural_key t = (m, ''BEDOK'', ''4 ROOM'', ''101'', ''BEDOK NTH AVE 4'', ''04 TO 06'', v)"
  if "sample_parseInt p = Some v"
  using that
  by (simp add: insert_values_def sample_env_def sample_record_def
      natural_key_def Let_def split: option.splits)


lemma sample_price_values:
  "sample_parseInt ''450000'' = Some 450000" "sample_parseInt ''300000'' = Some 300000"
  by (simp_all add: sample_parseInt_def is_digit_def decimal_value_def digit_value_def)

text \<open>
  Claim C5.  Inserting the same records a second time inserts nothing and leaves the table
  as it was; more generally, records whose natural keys are all stored already insert
  nothing.  No statement fails: a duplicate is skipped with zero changes.  The insert keeps
  the natural keys of the table distinct, only appends rows, counts exactly the rows it
  appends, and afterwards the table holds the natural key of every record inserted.  For
  the whole run: an authorised run whose loop ends with the records \<open>fetched\<close> answers 200,
  stores the table that inserting \<open>fetched\<close> gives and reports their number and the number
  of rows appended; a run that succeeded is such a run, so its \<open>records_inserted\<close> is the
  count of the rows it appended and its table is the old one with the fetched records
  inserted.  After a run that succeeded, a second run against the same upstream responses
  (with the same built-ins and a clock that has not gone back) succeeds, reports
  \<open>records_inserted = 0\<close> and leaves the transactions as they were.
\<close>

theorem sync_idempotent:
  "fst (insertRecords env allRecords (snd (insertRecords env allRecords table))) = 0 \<and>
   snd (insertRecords env allRecords (snd (insertRecords env allRecords table))) =
     snd (insertRecords env allRecords table) \<and>
   ((\<forall>r\<in>set seen. \<forall>t. insert_values env r = Some t \<longrightarrow>
        natural_key t \<in> natural_key ` set table) \<longrightarrow>
      insertRecords env seen table = (0, table)) \<and>
   (distinct (map natural_key table) \<longrightarrow>
      distinct (map natural_key (snd (insertRecords env allRecords table)))) \<and>
   (\<exists>new. snd (insertRecords env allRecords table) = table @ new \<and>
          length new = fst (insertRecords env allRecords table)) \<and>
   natural_key ` set (snd (insertRecords env allRecords table)) =
     natural_key ` set table \<union>
     natural_key ` {t. \<exists>r\<in>set allRecords. insert_values env r = Some t} \<and>
   ((cf_cron req = Some ''true'' \<or> secret req = Some ''manual-sync-trigger'') \<and>
    snd (fetchLoop (fetch env)
           (filterDate (six_months_ago env) (max_month (hdb_transactions DB))) 0 [] 0) =
      Inr fetched \<longrightarrow>
    (\<exists>DB1. GET env req (Some DB) =
       (\<lparr>http_status = 200,
         body = SyncSucceeded (length fetched)
                  (fst (insertRecords env fetched (hdb_transactions DB)))\<rparr>, Some DB1) \<and>
     hdb_transactions DB1 = snd (insertRecords env fetched (hdb_transactions DB)))) \<and>
   (GET env req (Some DB) =
      (\<lparr>http_status = 200, body = SyncSucceeded fetched1 inserted1\<rparr>, Some DB1) \<longrightarrow>
    (\<exists>fetched'.
       snd (fetchLoop (fetch env)
              (filterDate (six_months_ago env) (max_month (hdb_transactions DB))) 0 [] 0) =
         Inr fetched' \<and>
       fetched1 = length fetched' \<and>
       insertRecords env fetched' (hdb_transactions DB) = (inserted1, hdb_transactions DB1))) \<and>
   (GET env req (Some DB) =
      (\<lparr>http_status = 200, body = SyncSucceeded fetched1 inserted1\<rparr>, Some DB1) \<and>
    fetch env2 = fetch env \<and> parseInt env2 = parseInt env \<and>
    parseFloat env2 = parseFloat env \<and> six_months_ago env \<le> six_months_ago env2 \<longrightarrow>
    (\<exists>fetched2 DB2. GET env2 req (Some DB1) =
       (\<lparr>http_status = 200, body = SyncSucceeded fetched2 0\<rparr>, Some DB2) \<and>
     hdb_transactions DB2 = hdb_transactions DB1))"
proof -
  have keys: "natural_key ` set (snd (insertRecords env allRecords table)) =
     natural_key ` set table \<union>
     natural_key ` {t. \<exists>r\<in>set allRecords. insert_values env r = Some t}"
    by (rule insertRecords_keys)
  have again: "insertRecords env allRecords (snd (insertRecords env allRecords table)) =
      (0, snd (insertRecords env allRecords table))"
    by (rule insertRecords_seen) (auto simp: keys)
  have seen: "(\<forall>r\<in>set seen. \<forall>t. insert_values env r = Some t \<longrightarrow>
        natural_key t \<in> natural_key ` set table) \<longrightarrow>
      insertRecords env seen table = (0, table)"
    using insertRecords_seen[of seen env table] by blast
  have dist: "distinct (map natural_key table) \<longrightarrow>
      distinct (map natural_key (snd (insertRecords env allRecords table)))"
    by (simp add: insertRecords_sequential DB_batch_distinct)
  have new: "\<exists>new. snd (insertRecords env allRecords table) = table @ new \<and>
          length new = fst (insertRecords env allRecords table)"
    by (rule insertRecords_prefix)
  have run: "(cf_cron req = Some ''true'' \<or> secret req = Some ''manual-sync-trigger'') \<and>
    snd (fetchLoop (fetch env)
           (filterDate (six_months_ago env) (max_month (hdb_transactions DB))) 0 [] 0) =
      Inr fetched \<longrightarrow>
    (\<exists>DB1. GET env req (Some DB) =
       (\<lparr>http_status = 200,
         body = SyncSucceeded (length fetched)
                  (fst (insertRecords env fetched (hdb_transactions DB)))\<rparr>, Some DB1) \<and>
     hdb_transactions DB1 = snd (insertRecords env fetched (hdb_transactions DB)))"
    using GET_run[of req env DB fetched] by (intro impI) (elim conjE)
  have first: "GET env req (Some DB) =
      (\<lparr>http_status = 200, body = SyncSucceeded fetched1 inserted1\<rparr>, Some DB1) \<longrightarrow>
    (\<exists>fetched'.
       snd (fetchLoop (fetch env)
              (filterDate (six_months_ago env) (max_month (hdb_transactions DB))) 0 [] 0) =
         Inr fetched' \<and>
       fetched1 = length fetched' \<and>
       insertRecords env fetched' (hdb_transactions DB) = (inserted1, hdb_transactions DB1))"
    by (intro impI) (rule GET_first_run)
  have twice: "GET env req (Some DB) =
      (\<lparr>http_status = 200, body = SyncSucceeded fetched1 inserted1\<rparr>, Some DB1) \<and>
    fetch env2 = fetch env \<and> parseInt env2 = parseInt env \<and>
    parseFloat env2 = parseFloat env \<and> six_months_ago env \<le> six_months_ago env2 \<longrightarrow>
    (\<exists>fetched2 DB2. GET env2 req (Some DB1) =
       (\<lparr>http_status = 200, body = SyncSucceeded fetched2 0\<rparr>, Some DB2) \<and>
     hdb_transactions DB2 = hdb_transactions DB1)"
    using GET_twice[of env req DB fetched1 inserted1 DB1 env2] by blast
  have a: "fst (insertRecords env allRecords (snd (insertRecords env allRecords table))) = 0"
    and b: "snd (insertRecords env allRecords (snd (insertRecords env allRecords table))) =
     snd (insertRecords env allRecords table)"
    by (simp_all only: again fst_conv snd_conv)
  show ?thesis
    by (intro conjI a b seen dist new keys run first twice)
qed


lemma sample_page_continues_later:
  assumes "month r \<ge> ''2026-10''" and "offset < 49000"
  shows "page_body ''2026-10'' offset allRecords
     (Response 200 ''OK'' (Some \<lparr>success = True, records = replicate 1000 r\<rparr>)) =
     Continue (offset + 1000) (allRecords @ replicate 1000 r)"
  using assms by (simp add: page_body_success limit_def maxPages_def not_less[symmetric])

lemma sample_pages_later:
  "pages_continued (fetch sample_env) ''2026-10'' (Suc (Suc 0)) (0, []) =
   Some (2000, replicate 1000 (sample_record ''2026-10'' ''450000'') @
               replicate 1000 (sample_record ''2026-10'' ''300000''))"
proof -
  have m: "month (sample_record ''2026-10'' p) \<ge> ''2026-10''" for p
    by (simp add: sample_record_def)
  have p0: "fetch sample_env 0 = Response 200 ''OK''
            (Some \<lparr>success = True,
                   records = replicate 1000 (sample_record ''2026-10'' ''450000'')\<rparr>)"
    by (simp add: sample_env_def)
  have p1: "fetch sample_env 1000 = Response 200 ''OK''
            (Some \<lparr>success = True,
                   records = replicate 1000 (sample_record ''2026-10'' ''300000'')\<rparr>)"
    by (simp add: sample_env_def)
  show ?thesis
    by (simp add: p0 p1 sample_page_continues_later[OF m])
qed

lemma DB_batch_replicate_1000:
  "DB_batch (replicate 1000 (Some t)) table =
     (if natural_key t \<in> natural_key ` set table then (replicate 1000 0, table)
      else (1 # replicate 999 0, table @ [t]))"
proof -
  have n: "(1000::nat) = Suc 999" by simp
  show ?thesis unfolding n by (rule DB_batch_replicate)
qed

theorem sync_idempotent_witness:
  "fst (insertRecords sample_env
          [sample_record ''2026-10'' ''450000'', sample_record ''2026-10'' ''450000'',
           sample_record ''2026-09'' ''300000''] []) = 2 \<and>
   map natural_key
     (snd (insertRecords sample_env
          [sample_record ''2026-10'' ''450000'', sample_record ''2026-10'' ''450000'',
           sample_record ''2026-09'' ''300000''] [])) =
     [(''2026-10'', ''BEDOK'', ''4 ROOM'', ''101'', ''BEDOK NTH AVE 4'', ''04 TO 06'', 450000),
      (''2026-09'', ''BEDOK'', ''4 ROOM'', ''101'', ''BEDOK NTH AVE 4'', ''04 TO 06'', 300000)] \<and>
   insertRecords sample_env
     [sample_record ''2026-10'' ''450000'', sample_record ''2026-10'' ''450000'',
      sample_record ''2026-09'' ''300000'']
     (snd (insertRecords sample_env
          [sample_record ''2026-10'' ''450000'', sample_record ''2026-10'' ''450000'',
           sample_record ''2026-09'' ''300000''] [])) =
     (0, snd (insertRecords sample_env
          [sample_record ''2026-10'' ''450000'', sample_record ''2026-10'' ''450000'',
           sample_record ''2026-09'' ''300000''] [])) \<and>
   distinct (map natural_key
     (snd (insertRecords sample_env
          [sample_record ''2026-10'' ''450000'', sample_record ''2026-10'' ''450000'',
           sample_record ''2026-09'' ''300000''] []))) \<and>
   (\<exists>DB1 DB2.
      GET sample_env \<lparr>cf_cron = Some ''true'', secret = None\<rparr> (Some sample_database) =
        (\<lparr>http_status = 200, body = SyncSucceeded 2000 2\<rparr>, Some DB1) \<and>
      map natural_key (hdb_transactions DB1) =
        [(''2026-10'', ''BEDOK'', ''4 ROOM'', ''101'', ''BEDOK NTH AVE 4'', ''04 TO 06'', 450000),
         (''2026-10'', ''BEDOK'', ''4 ROOM'', ''101'', ''BEDOK NTH AVE 4'', ''04 TO 06'', 300000)] \<and>
      GET sample_env \<lparr>cf_cron = Some ''true'', secret = None\<rparr> (Some DB1) =
        (\<lparr>http_status = 200, body = SyncSucceeded 2000 0\<rparr>, Some DB2) \<and>
      hdb_transactions DB2 = hdb_transactions DB1)"
proof -
  define rs where "rs = [sample_record ''2026-10'' ''450000'', sample_record ''2026-10'' ''450000'',
           sample_record ''2026-09'' ''300000'']"
  let ?req = "\<lparr>cf_cron = Some ''true'', secret = None\<rparr>"
  let ?fetched = "replicate 1000 (sample_record ''2026-10'' ''450000'') @
          replicate 1000 (sample_record ''2026-10'' ''300000'')"
  let ?k1 = "(''2026-10'', ''BEDOK'', ''4 ROOM'', ''101'', ''BEDOK NTH AVE 4'', ''04 TO 06'', 450000::int)"
  let ?k3 = "(''2026-10'', ''BEDOK'', ''4 ROOM'', ''101'', ''BEDOK NTH AVE 4'', ''04 TO 06'', 300000::int)"
  obtain t1 where t1: "insert_values sample_env (sample_record ''2026-10'' ''450000'') = Some t1"
    "natural_key t1 =
      (''2026-10'', ''BEDOK'', ''4 ROOM'', ''101'', ''BEDOK NTH AVE 4'', ''04 TO 06'', 450000)"
    using sample_values[OF sample_price_values(1)] by blast
  obtain t2 where t2: "insert_values sample_env (sample_record ''2026-09'' ''300000'') = Some t2"
    "natural_key t2 =
      (''2026-09'', ''BEDOK'', ''4 ROOM'', ''101'', ''BEDOK NTH AVE 4'', ''04 TO 06'', 300000)"
    using sample_values[OF sample_price_values(2)] by blast
  obtain t3 where t3: "insert_values sample_env (sample_record ''2026-10'' ''300000'') = Some t3"
    "natural_key t3 =
      (''2026-10'', ''BEDOK'', ''4 ROOM'', ''101'', ''BEDOK NTH AVE 4'', ''04 TO 06'', 300000)"
    using sample_values[OF sample_price_values(2)] by blast
  have run: "insertRecords sample_env rs [] = (2, [t1, t2])"
    unfolding rs_def by (simp add: insertRecords_sequential insert_or_ignore_def t1 t2)
  have ins: "insertRecords sample_env ?fetched [] = (2, [t1, t3])"
    by (simp add: insertRecords_sequential DB_batch_append DB_batch_replicate_1000 t1 t3)
  have auth: "cf_cron ?req = Some ''true'' \<or> secret ?req = Some ''manual-sync-trigger''"
    by simp
  have limited: "rate_limited (fetch sample_env 2000)"
    by (simp add: sample_env_def rate_limited_def)
  have tx0: "hdb_transactions sample_database = []" by (simp add: sample_database_def)
  have loop1: "snd (fetchLoop (fetch sample_env)
      (filterDate (six_months_ago sample_env) (max_month (hdb_transactions sample_database)))
      0 [] 0) = Inr ?fetched"
    by (simp only: fetchLoop_soft_stop[OF sample_pages limited] snd_conv)
  have len: "length ?fetched = 2000" by simp
  note T0 = sync_idempotent[where env = sample_env and allRecords = rs and table = "[]"
      and seen = "[]" and req = ?req and DB = sample_database and fetched = ?fetched]
  have again: "insertRecords sample_env rs (snd (insertRecords sample_env rs [])) =
      (0, snd (insertRecords sample_env rs []))"
    using T0[THEN conjunct1] T0[THEN conjunct2, THEN conjunct1] by (simp add: prod_eq_iff)
  have dist: "distinct (map natural_key (snd (insertRecords sample_env rs [])))"
    using T0[THEN conjunct2, THEN conjunct2, THEN conjunct2, THEN conjunct1] by simp
  note R = T0[THEN conjunct2, THEN conjunct2, THEN conjunct2, THEN conjunct2, THEN conjunct2,
      THEN conjunct2, THEN conjunct1, THEN mp, OF conjI[OF auth loop1],
      unfolded tx0 ins len fst_conv snd_conv]
  from R obtain DB1 where
    first: "GET sample_env ?req (Some sample_database) =
      (\<lparr>http_status = 200, body = SyncSucceeded 2000 2\<rparr>, Some DB1)" and
    tx1: "hdb_transactions DB1 = [t1, t3]"
    by (elim exE conjE)
  have keys1: "map natural_key (hdb_transactions DB1) = [?k1, ?k3]"
    by (simp only: tx1 list.map t1 t3)
  have months: "col_month t1 = ''2026-10''" "col_month t3 = ''2026-10''"
    using t1(2) t3(2) by (simp_all add: natural_key_def)
  have fd2: "filterDate (six_months_ago sample_env) (max_month (hdb_transactions DB1)) =
      ''2026-10''"
    by (simp add: tx1 max_month_def filterDate_def months sample_six_months_ago)
  have loop2: "snd (fetchLoop (fetch sample_env)
      (filterDate (six_months_ago sample_env) (max_month (hdb_transactions DB1))) 0 [] 0) =
      Inr ?fetched"
    by (simp only: fd2 fetchLoop_soft_stop[OF sample_pages_later limited] snd_conv)
  note T1 = sync_idempotent[where env = sample_env and allRecords = rs and table = "[]"
      and seen = "[]" and req = ?req and DB = sample_database and fetched = ?fetched
      and ?fetched1.0 = 2000 and ?inserted1.0 = 2 and ?DB1.0 = DB1 and ?env2.0 = sample_env]
  from T1 first obtain fetched2 DB2 where second:
    "GET sample_env ?req (Some DB1) =
        (\<lparr>http_status = 200, body = SyncSucceeded fetched2 0\<rparr>, Some DB2)"
    "hdb_transactions DB2 = hdb_transactions DB1"
    by auto
  note T2 = sync_idempotent[where env = sample_env and allRecords = rs and table = "[]"
      and seen = "[]" and req = ?req and DB = DB1 and fetched = ?fetched
      and ?fetched1.0 = fetched2 and ?inserted1.0 = 0 and ?DB1.0 = DB2]
  note F = T2[THEN conjunct2, THEN conjunct2, THEN conjunct2, THEN conjunct2, THEN conjunct2,
      THEN conjunct2, THEN conjunct2, THEN conjunct1, THEN mp, OF second(1), unfolded loop2]
  have f2: "fetched2 = 2000"
    using F len by auto
  have runs: "\<exists>DB1 DB2.
      GET sample_env ?req (Some sample_database) =
        (\<lparr>http_status = 200, body = SyncSucceeded 2000 2\<rparr>, Some DB1) \<and>
      map natural_key (hdb_transactions DB1) = [?k1, ?k3] \<and>
      GET sample_env ?req (Some DB1) =
        (\<lparr>http_status = 200, body = SyncSucceeded 2000 0\<rparr>, Some DB2) \<and>
      hdb_transactions DB2 = hdb_transactions DB1"
    using first keys1 second unfolding f2
    by (intro exI[of _ DB1] exI[of _ DB2]) (simp only: simp_thms)
  show ?thesis
    unfolding rs_def[symmetric] using run again dist runs by (simp add: t1 t2)
qed

subsection \<open>The watermark of a run\<close>












section \<open>Properties of the amenity count\<close>

lemma getNearbyAmenities_nonneg:
  "0 \<le> getNearbyAmenities service latitude longitude theme token"
  by (simp add: getNearbyAmenities_def Let_def
      split: theme_reply.splits option.splits srch_results.splits)

lemma getNearbyAmenities_not_found:
  assumes "service (case themeMapping theme of Some t \<Rightarrow> t | None \<Rightarrow> theme)
             (extents_of latitude longitude) token = Reply 404 data"
  shows "getNearbyAmenities service latitude longitude theme token = 0"
  using assms by (simp add: getNearbyAmenities_def Let_def)

text \<open>
  Claim C9 asks for a count that is never negative.  The client the endpoints import
  keeps to it (the two lemmas above).  The second copy of the client does not: for a
  reply whose \<open>SrchResults\<close> is the empty array it returns \<open>0 - 1\<close>, where the first client
  returns 0.
\<close>

theorem getNearbyAmenities_second_negative:
  "getNearbyAmenities_second (\<lambda>theme extents token. Reply 200 (Some (Entries 0)))
     1.3236 103.9273 ''preschools'' ''token'' = Some (- 1) \<and>
   getNearbyAmenities (\<lambda>theme extents token. Reply 200 (Some (Entries 0)))
     1.3236 103.9273 ''preschools'' ''token'' = 0"
  by (simp add: getNearbyAmenities_second_def getNearbyAmenities_def Let_def)


end
